theory Spec2Isabelle
  imports Complex_Main
begin

section \<open>Breakout rooms: the route handlers of backend/routes/breakoutRoomRoutes.js\<close>

text \<open>
  The handlers read and write two MongoDB collections (LiveSanctuarySession and
  BreakoutRoom) and publish events through redisService. The embedding makes all three
  explicit: a database state \<open>db\<close> holds the two collections as lists (a document's
  position in its list is its \<open>_id\<close>) and the log of published events. Each handler
  is a function from the state before the request to the response and the state after
  it: requests are handled one after another. Two joins that overlap between the
  \<open>await\<close>s of the handler are the subject of \<open>joinRead\<close> and \<open>joinSave\<close>.

  Field names carry the prefix of their document type (\<open>s_\<close> session, \<open>p_\<close> session
  participant, \<open>r_\<close> breakout room, \<open>rp_\<close> room participant, \<open>b_\<close> request body,
  \<open>sm_\<close> room summary), since the source uses \<open>id\<close> and \<open>participants\<close> in
  several of them. Dates are natural numbers (milliseconds).

  Two values come from the request body as the client sent them. \<open>maxParticipants\<close>
  is a JSON number: a rational (the value of the number the parser produced), of either
  sign, whole or not, since no handler restricts it. The room's name is a JavaScript
  string: the list of its UTF-16 code units, so that \<open>length\<close> is the source's
  \<open>.length\<close>. Identifiers are only ever compared and concatenated and stay
  \<open>string\<close>s.
\<close>

type_synonym jsString = "nat list"

subsection \<open>Documents\<close>

datatype connection = connected | disconnected

record participant =
  p_id :: string
  p_alias :: string
  p_avatarIndex :: nat
  p_isHost :: bool
  p_isModerator :: bool
  p_joinedAt :: nat
  p_isMuted :: bool
  p_connectionStatus :: connection

text \<open>The object literal \<open>roomParticipant\<close> of the join and auto-assign handlers.\<close>

record roomParticipant =
  rp_id :: string
  rp_alias :: string
  rp_avatarIndex :: nat
  rp_joinedAt :: nat
  rp_isMuted :: bool
  rp_connectionStatus :: connection

datatype roomStatus = active | closed

record breakoutRoom =
  r_id :: string
  r_sessionId :: string
  r_name :: jsString
  r_createdBy :: string
  r_creatorAlias :: string
  r_maxParticipants :: rat
  r_agoraChannelName :: string
  r_agoraToken :: string
  r_status :: roomStatus
  r_createdAt :: nat
  r_expiresAt :: nat
  r_closedAt :: "nat option"
  r_participants :: "roomParticipant list"
  r_autoAssign :: bool

record session =
  s_id :: string
  s_hostId :: string
  s_hostAlias :: string
  s_participants :: "participant list"
  s_breakoutRooms :: "nat list"

text \<open>
  A published event: the topic, the event type and, of the payload, the room id
  (every payload of this file carries one).
\<close>

datatype event = Event string string string

record db =
  sessions :: "session list"
  rooms :: "breakoutRoom list"
  published :: "event list"

subsection \<open>Responses\<close>

text \<open>
  One constructor for each \<open>res.error\<close> of the file:
  \<^item> \<open>SessionNotFound\<close>: 'Session not found', 404;
  \<^item> \<open>RoomNotFound\<close>: 'Breakout room not found', 404;
  \<^item> \<open>Forbidden\<close>: the 403 responses (not host or moderator, not a participant of
    the main session, not the host);
  \<^item> \<open>InvalidArgument\<close>: 'Room name must be at least 2 characters', 400;
  \<^item> \<open>WrongSession\<close>: 'Breakout room does not belong to this session', 400;
  \<^item> \<open>CapacityExceeded\<close>: 'Breakout room is full', 400;
  \<^item> \<open>AlreadyMember\<close>: 'Already in breakout room', 400;
  \<^item> \<open>NotMember\<close>: 'Not in breakout room', 400;
  \<^item> \<open>NoActiveRooms\<close>: 'No active breakout rooms found', 400;
  \<^item> \<open>InternalError\<close>: the 500 of a \<open>catch\<close> block.
\<close>

datatype error =
    SessionNotFound
  | RoomNotFound
  | Forbidden
  | InvalidArgument
  | WrongSession
  | CapacityExceeded
  | AlreadyMember
  | NotMember
  | NoActiveRooms
  | InternalError

fun httpStatus :: "error \<Rightarrow> nat" where
  "httpStatus SessionNotFound = 404"
| "httpStatus RoomNotFound = 404"
| "httpStatus Forbidden = 403"
| "httpStatus InternalError = 500"
| "httpStatus _ = 400"

record roomSummary =
  sm_id :: string
  sm_name :: jsString
  sm_createdBy :: string
  sm_creatorAlias :: string
  sm_maxParticipants :: rat
  sm_currentParticipants :: nat
  sm_participants :: "(string \<times> string \<times> nat \<times> nat) list"
  sm_createdAt :: nat
  sm_canJoin :: bool

text \<open>The data of each \<open>res.success\<close>.\<close>

datatype response =
    RoomCreated breakoutRoom
  | Joined breakoutRoom roomParticipant
  | Left string jsString
  | RoomList "roomSummary list" nat
  | Closed string jsString
  | AllAssigned
  | AutoAssigned nat nat

type_synonym result = "error + response"

subsection \<open>Collections and the event bus\<close>

text \<open>
  \<open>findOne\<close> is Mongoose's \<open>Model.findOne\<close>: the first document that matches, with its
  position; \<open>findAll\<close> is \<open>Model.find\<close>: every match, in the collection's order;
  \<open>saveAt\<close> is \<open>document.save()\<close> of a document found at position \<open>k\<close>.
  \<open>findIndex\<close> is \<open>Array.prototype.findIndex\<close>, with \<open>None\<close> for -1, and
  \<open>splice1 i\<close> is \<open>splice(i, 1)\<close>.
\<close>

fun findOne :: "('a \<Rightarrow> bool) \<Rightarrow> 'a list \<Rightarrow> (nat \<times> 'a) option" where
  "findOne P [] = None"
| "findOne P (x # xs) =
     (if P x then Some (0, x)
      else (case findOne P xs of None \<Rightarrow> None | Some (k, y) \<Rightarrow> Some (Suc k, y)))"

definition findAll :: "('a \<Rightarrow> bool) \<Rightarrow> 'a list \<Rightarrow> (nat \<times> 'a) list" where
  "findAll P xs = filter (\<lambda>kd. P (snd kd)) (enumerate 0 xs)"

definition saveAt :: "nat \<Rightarrow> 'a \<Rightarrow> 'a list \<Rightarrow> 'a list" where
  "saveAt k d xs = xs[k := d]"

fun findIndex :: "('a \<Rightarrow> bool) \<Rightarrow> 'a list \<Rightarrow> nat option" where
  "findIndex P [] = None"
| "findIndex P (x # xs) =
     (if P x then Some 0
      else (case findIndex P xs of None \<Rightarrow> None | Some i \<Rightarrow> Some (Suc i)))"

definition splice1 :: "nat \<Rightarrow> 'a list \<Rightarrow> 'a list" where
  "splice1 i xs = take i xs @ drop (Suc i) xs"

definition publishEvent :: "string \<Rightarrow> string \<Rightarrow> string \<Rightarrow> db \<Rightarrow> db" where
  "publishEvent topic etype roomId st = st\<lparr>published := published st @ [Event topic etype roomId]\<rparr>"

definition saveRoom :: "nat \<Rightarrow> breakoutRoom \<Rightarrow> db \<Rightarrow> db" where
  "saveRoom k room st = st\<lparr>rooms := saveAt k room (rooms st)\<rparr>"

subsection \<open>What a request brings with it\<close>

text \<open>
  The handlers call code that is not in this file. It is passed in:
  \<^item> \<open>now\<close>: the clock (\<open>new Date()\<close>, \<open>Date.now()\<close>), read once per request;
  \<^item> \<open>generateRtcToken\<close>: utils/agoraTokenGenerator, from the channel name to the
    token, \<open>None\<close> when it throws;
  \<^item> \<open>nanoid6\<close>, \<open>nanoid16\<close>: the strings that \<open>nanoid(6)\<close> and \<open>nanoid(16)\<close>
    return in this request;
  \<^item> \<open>schemaOk\<close>: the validators of the BreakoutRoom schema (models/BreakoutRoom),
    run by \<open>save()\<close> on the new document; a document they refuse makes \<open>save()\<close>
    throw.
\<close>

record env =
  now :: nat
  generateRtcToken :: "string \<Rightarrow> string option"
  nanoid6 :: string
  nanoid16 :: string
  schemaOk :: "breakoutRoom \<Rightarrow> bool"

text \<open>
  The JSON body of the create request; \<open>None\<close> is a field that is absent, which the
  destructuring replaces by its default (\<open>maxParticipants = 10\<close>, \<open>autoAssign = false\<close>).
\<close>

record createBody =
  b_name :: "jsString option"
  b_maxParticipants :: "rat option"
  b_autoAssign :: "bool option"

text \<open>
  \<open>String.prototype.trim\<close> removes, at both ends, the code units that ECMAScript
  counts as white space or as line terminators: tab, line feed, vertical tab, form
  feed, carriage return, space, no-break space (U+00A0), U+1680, U+2000 to U+200A,
  the line and paragraph separators U+2028 and U+2029, U+202F, U+205F, U+3000 and the
  byte order mark U+FEFF.
\<close>

definition isSpace :: "nat \<Rightarrow> bool" where
  "isSpace c =
     (c \<in> set [0x09, 0x0A, 0x0B, 0x0C, 0x0D, 0x20, 0xA0, 0x1680, 0x2028, 0x2029, 0x202F,
                0x205F, 0x3000, 0xFEFF]
      \<or> (0x2000 \<le> c \<and> c \<le> 0x200A))"

definition trim :: "jsString \<Rightarrow> jsString" where
  "trim s = rev (dropWhile isSpace (rev (dropWhile isSpace s)))"

subsection \<open>POST /:sessionId/breakout-rooms\<close>

definition newRoomId :: "env \<Rightarrow> string \<Rightarrow> string" where
  "newRoomId e sessionId = ''breakout_'' @ sessionId @ ''_'' @ nanoid6 e"

definition channelNameOf :: "string \<Rightarrow> string" where
  "channelNameOf roomId = ''breakout_'' @ roomId"

text \<open>The token of the new room: the generator's, or the placeholder of the \<open>catch\<close>.\<close>

definition agoraTokenFor :: "env \<Rightarrow> string \<Rightarrow> string" where
  "agoraTokenFor e channelName =
     (case generateRtcToken e channelName of
        Some token \<Rightarrow> token
      | None \<Rightarrow> ''temp_breakout_token_'' @ nanoid16 e)"

text \<open>How a client tells the placeholder: by its prefix.\<close>

definition degraded :: "string \<Rightarrow> bool" where
  "degraded token = (take 20 token = ''temp_breakout_token_'')"

text \<open>The document \<open>new BreakoutRoom({...})\<close>.\<close>

definition newRoom :: "env \<Rightarrow> session \<Rightarrow> participant \<Rightarrow> string \<Rightarrow> jsString \<Rightarrow> createBody \<Rightarrow> breakoutRoom" where
  "newRoom e sess creator user nm body =
     (let roomId = newRoomId e (s_id sess) in
      \<lparr> r_id = roomId,
        r_sessionId = s_id sess,
        r_name = trim nm,
        r_createdBy = user,
        r_creatorAlias = p_alias creator,
        r_maxParticipants = (case b_maxParticipants body of None \<Rightarrow> 10 | Some m \<Rightarrow> m),
        r_agoraChannelName = channelNameOf roomId,
        r_agoraToken = agoraTokenFor e (channelNameOf roomId),
        r_status = active,
        r_createdAt = now e,
        r_expiresAt = now e + 3600 * 1000,
        r_closedAt = None,
        r_participants = [],
        r_autoAssign = (case b_autoAssign body of None \<Rightarrow> False | Some a \<Rightarrow> a) \<rparr>)"

definition createRoom :: "env \<Rightarrow> db \<Rightarrow> string \<Rightarrow> string \<Rightarrow> createBody \<Rightarrow> result \<times> db" where
  "createRoom e st sessionId user body =
     (case findOne (\<lambda>s. s_id s = sessionId) (sessions st) of
        None \<Rightarrow> (Inl SessionNotFound, st)
      | Some (j, sess) \<Rightarrow>
          (case find (\<lambda>p. p_id p = user) (s_participants sess) of
             None \<Rightarrow> (Inl Forbidden, st)
           | Some creator \<Rightarrow>
               if \<not> p_isHost creator \<and> \<not> p_isModerator creator then (Inl Forbidden, st)
               else
                 (case b_name body of
                    None \<Rightarrow> (Inl InvalidArgument, st)
                  | Some nm \<Rightarrow>
                      if nm = [] then (Inl InvalidArgument, st)
                      else if length (trim nm) < 2 then (Inl InvalidArgument, st)
                      else
                        (let room = newRoom e sess creator user nm body in
                         if \<not> schemaOk e room then (Inl InternalError, st)
                         else
                           (let st1 = st\<lparr>rooms := rooms st @ [room]\<rparr>;
                                sess' = sess\<lparr>s_breakoutRooms := s_breakoutRooms sess @ [length (rooms st)]\<rparr>;
                                st2 = st1\<lparr>sessions := saveAt j sess' (sessions st1)\<rparr>;
                                st3 = publishEvent (''session:'' @ sessionId) ''breakout_room_created'' (r_id room) st2
                            in (Inr (RoomCreated room), st3))))))"

subsection \<open>POST /:sessionId/breakout-rooms/:roomId/join\<close>

text \<open>The snapshot pushed onto a room's \<open>participants\<close>, by join and by auto-assign.\<close>

definition snapshot :: "nat \<Rightarrow> participant \<Rightarrow> roomParticipant" where
  "snapshot t p =
     \<lparr> rp_id = p_id p,
       rp_alias = p_alias p,
       rp_avatarIndex = p_avatarIndex p,
       rp_joinedAt = t,
       rp_isMuted = True,
       rp_connectionStatus = connected \<rparr>"

definition joinRoom :: "nat \<Rightarrow> db \<Rightarrow> string \<Rightarrow> string \<Rightarrow> string \<Rightarrow> result \<times> db" where
  "joinRoom t st sessionId roomId user =
     (case findOne (\<lambda>s. s_id s = sessionId) (sessions st) of
        None \<Rightarrow> (Inl SessionNotFound, st)
      | Some (j, sess) \<Rightarrow>
          (case find (\<lambda>p. p_id p = user) (s_participants sess) of
             None \<Rightarrow> (Inl Forbidden, st)
           | Some p \<Rightarrow>
               (case findOne (\<lambda>r. r_id r = roomId) (rooms st) of
                  None \<Rightarrow> (Inl RoomNotFound, st)
                | Some (k, room) \<Rightarrow>
                    if r_sessionId room \<noteq> sessionId then (Inl WrongSession, st)
                    else if r_maxParticipants room \<le> of_nat (length (r_participants room))
                      then (Inl CapacityExceeded, st)
                    else if find (\<lambda>q. rp_id q = user) (r_participants room) \<noteq> None
                      then (Inl AlreadyMember, st)
                    else
                      (let roomParticipant = snapshot t (p\<lparr>p_id := user\<rparr>);
                           room' = room\<lparr>r_participants := r_participants room @ [roomParticipant]\<rparr>;
                           st1 = saveRoom k room' st;
                           st2 = publishEvent (''breakout:'' @ roomId) ''participant_joined'' (r_id room') st1;
                           st3 = publishEvent (''session:'' @ sessionId) ''breakout_room_joined'' (r_id room') st2
                       in (Inr (Joined room' roomParticipant), st3)))))"

text \<open>
  The same handler as its \<open>await\<close>s split it, for two joins that overlap.
  \<open>joinRead\<close> is the handler up to the push onto the document in memory: it answers
  the error, or the position of the room, the document as it was read and the new
  entry. \<open>joinSave\<close> is the completion of \<open>save()\<close>, followed by the two events and
  the answer. Modelled from the spec: \<open>save()\<close> belongs to the Mongoose library, which
  is not among the sources; section 5 of the specification says of this read, check and
  write that two simultaneous joins both pass the check and the room exceeds capacity,
  so \<open>joinSave\<close> adds the entry to the roster that is stored when the save completes.
  When nothing happens between the two steps this is \<open>joinRoom\<close>.
\<close>

definition joinRead :: "nat \<Rightarrow> db \<Rightarrow> string \<Rightarrow> string \<Rightarrow> string
    \<Rightarrow> error + (nat \<times> breakoutRoom \<times> roomParticipant)" where
  "joinRead t st sessionId roomId user =
     (case findOne (\<lambda>s. s_id s = sessionId) (sessions st) of
        None \<Rightarrow> Inl SessionNotFound
      | Some (j, sess) \<Rightarrow>
          (case find (\<lambda>p. p_id p = user) (s_participants sess) of
             None \<Rightarrow> Inl Forbidden
           | Some p \<Rightarrow>
               (case findOne (\<lambda>r. r_id r = roomId) (rooms st) of
                  None \<Rightarrow> Inl RoomNotFound
                | Some (k, room) \<Rightarrow>
                    if r_sessionId room \<noteq> sessionId then Inl WrongSession
                    else if r_maxParticipants room \<le> of_nat (length (r_participants room))
                      then Inl CapacityExceeded
                    else if find (\<lambda>q. rp_id q = user) (r_participants room) \<noteq> None
                      then Inl AlreadyMember
                    else Inr (k, room, snapshot t (p\<lparr>p_id := user\<rparr>)))))"

definition joinSave :: "string \<Rightarrow> string \<Rightarrow> nat \<times> breakoutRoom \<times> roomParticipant \<Rightarrow> db
    \<Rightarrow> result \<times> db" where
  "joinSave sessionId roomId pending st =
     (let k = fst pending;
          room = fst (snd pending);
          roomParticipant = snd (snd pending);
          room' = room\<lparr>r_participants := r_participants room @ [roomParticipant]\<rparr>;
          stored = rooms st ! k;
          st1 = saveRoom k (stored\<lparr>r_participants := r_participants stored @ [roomParticipant]\<rparr>) st;
          st2 = publishEvent (''breakout:'' @ roomId) ''participant_joined'' (r_id room') st1;
          st3 = publishEvent (''session:'' @ sessionId) ''breakout_room_joined'' (r_id room') st2
      in (Inr (Joined room' roomParticipant), st3))"

subsection \<open>POST /:sessionId/breakout-rooms/:roomId/leave\<close>

definition leaveRoom :: "db \<Rightarrow> string \<Rightarrow> string \<Rightarrow> string \<Rightarrow> result \<times> db" where
  "leaveRoom st sessionId roomId user =
     (case findOne (\<lambda>r. r_id r = roomId) (rooms st) of
        None \<Rightarrow> (Inl RoomNotFound, st)
      | Some (k, room) \<Rightarrow>
          (case findIndex (\<lambda>q. rp_id q = user) (r_participants room) of
             None \<Rightarrow> (Inl NotMember, st)
           | Some participantIndex \<Rightarrow>
               (let room' = room\<lparr>r_participants := splice1 participantIndex (r_participants room)\<rparr>;
                    st1 = saveRoom k room' st;
                    st2 = publishEvent (''breakout:'' @ roomId) ''participant_left'' (r_id room') st1;
                    st3 = publishEvent (''session:'' @ sessionId) ''breakout_room_left'' (r_id room') st2
                in (Inr (Left (r_id room') (r_name room')), st3))))"

subsection \<open>GET /:sessionId/breakout-rooms\<close>

definition summary :: "string \<Rightarrow> breakoutRoom \<Rightarrow> roomSummary" where
  "summary user room =
     \<lparr> sm_id = r_id room,
       sm_name = r_name room,
       sm_createdBy = r_createdBy room,
       sm_creatorAlias = r_creatorAlias room,
       sm_maxParticipants = r_maxParticipants room,
       sm_currentParticipants = length (r_participants room),
       sm_participants =
         map (\<lambda>q. (rp_id q, rp_alias q, rp_avatarIndex q, rp_joinedAt q)) (r_participants room),
       sm_createdAt = r_createdAt room,
       sm_canJoin = (of_nat (length (r_participants room)) < r_maxParticipants room \<and>
                     find (\<lambda>q. rp_id q = user) (r_participants room) = None) \<rparr>"

text \<open>
  The query \<open>find({sessionId, status: 'active'}).sort({createdAt: 1})\<close>; rooms created
  at the same instant keep the collection's order here.
\<close>

definition activeRoomsByAge :: "session \<Rightarrow> breakoutRoom list \<Rightarrow> breakoutRoom list" where
  "activeRoomsByAge sess rs =
     sort_key r_createdAt
       (map snd (findAll (\<lambda>r. r_sessionId r = s_id sess \<and> r_status r = active) rs))"

definition listRooms :: "db \<Rightarrow> string \<Rightarrow> string \<Rightarrow> result \<times> db" where
  "listRooms st sessionId user =
     (case findOne (\<lambda>s. s_id s = sessionId) (sessions st) of
        None \<Rightarrow> (Inl SessionNotFound, st)
      | Some (j, sess) \<Rightarrow>
          (case find (\<lambda>p. p_id p = user) (s_participants sess) of
             None \<Rightarrow> (Inl Forbidden, st)
           | Some p \<Rightarrow>
               (let roomList = map (summary user) (activeRoomsByAge sess (rooms st))
                in (Inr (RoomList roomList (length roomList)), st))))"

subsection \<open>DELETE /:sessionId/breakout-rooms/:roomId\<close>

definition closeRoom :: "nat \<Rightarrow> db \<Rightarrow> string \<Rightarrow> string \<Rightarrow> string \<Rightarrow> result \<times> db" where
  "closeRoom t st sessionId roomId user =
     (case findOne (\<lambda>s. s_id s = sessionId) (sessions st) of
        None \<Rightarrow> (Inl SessionNotFound, st)
      | Some (j, sess) \<Rightarrow>
          if s_hostId sess \<noteq> user then (Inl Forbidden, st)
          else
            (case findOne (\<lambda>r. r_id r = roomId) (rooms st) of
               None \<Rightarrow> (Inl RoomNotFound, st)
             | Some (k, room) \<Rightarrow>
                 (let room' = room\<lparr>r_status := closed, r_closedAt := Some t\<rparr>;
                      st1 = saveRoom k room' st;
                      st2 = publishEvent (''breakout:'' @ roomId) ''room_closed'' (r_id room') st1;
                      st3 = publishEvent (''session:'' @ sessionId) ''breakout_room_closed'' (r_id room') st2
                  in (Inr (Closed (r_id room') (r_name room')), st3))))"

subsection \<open>POST /:sessionId/breakout-rooms/auto-assign\<close>

text \<open>
  \<open>unassignedParticipants\<close>: the session's participants that no room of
  \<open>breakoutRooms\<close> holds, in the session's order.
\<close>

definition unassignedParticipants :: "session \<Rightarrow> breakoutRoom list \<Rightarrow> participant list" where
  "unassignedParticipants sess breakoutRooms =
     filter
       (\<lambda>p. \<not> list_ex (\<lambda>room. list_ex (\<lambda>q. rp_id q = p_id p) (r_participants room)) breakoutRooms)
       (s_participants sess)"

text \<open>
  The \<open>for\<close> loop over \<open>unassignedParticipants\<close>. \<open>brs\<close> is the array
  \<open>breakoutRooms\<close> of the documents in memory, each with its position in the
  collection; the loop changes a document in memory and saves it. The array is not
  empty when the loop runs (the handler has returned before otherwise).
\<close>

fun assignLoop :: "nat \<Rightarrow> participant list \<Rightarrow> nat \<Rightarrow> (nat \<times> breakoutRoom) list \<Rightarrow> db
    \<Rightarrow> (nat \<times> breakoutRoom) list \<times> db" where
  "assignLoop t [] roomIndex brs st = (brs, st)"
| "assignLoop t (p # ps) roomIndex brs st =
     (let i = roomIndex mod length brs;
          k = fst (brs ! i);
          targetRoom = snd (brs ! i)
      in if of_nat (length (r_participants targetRoom)) < r_maxParticipants targetRoom
         then
           (let targetRoom' = targetRoom\<lparr>r_participants := r_participants targetRoom @ [snapshot t p]\<rparr>;
                st1 = saveRoom k targetRoom' st;
                st2 = publishEvent (''user:'' @ p_id p) ''auto_assigned_to_breakout'' (r_id targetRoom') st1
            in assignLoop t ps (roomIndex + 1) (brs[i := (k, targetRoom')]) st2)
         else assignLoop t ps (roomIndex + 1) brs st)"

definition autoAssign :: "nat \<Rightarrow> db \<Rightarrow> string \<Rightarrow> string \<Rightarrow> result \<times> db" where
  "autoAssign t st sessionId user =
     (case findOne (\<lambda>s. s_id s = sessionId) (sessions st) of
        None \<Rightarrow> (Inl SessionNotFound, st)
      | Some (j, sess) \<Rightarrow>
          if s_hostId sess \<noteq> user then (Inl Forbidden, st)
          else
            (let breakoutRooms = findAll (\<lambda>r. r_sessionId r = s_id sess \<and> r_status r = active) (rooms st)
             in if length breakoutRooms = 0 then (Inl NoActiveRooms, st)
                else
                  (let unassigned = unassignedParticipants sess (map snd breakoutRooms)
                   in if length unassigned = 0 then (Inr AllAssigned, st)
                      else
                        (Inr (AutoAssigned (length unassigned) (length breakoutRooms)),
                         snd (assignLoop t unassigned 0 breakoutRooms st)))))"

subsection \<open>Requests in sequence\<close>

text \<open>
  \<open>run\<close> handles a list of requests one after another, each to its response before
  the next begins, each with the clock and the random strings of its own.
\<close>

datatype command =
    CreateRoom string string createBody
  | JoinRoom string string string
  | LeaveRoom string string string
  | ListRooms string string
  | CloseRoom string string string
  | AutoAssign string string

fun handle :: "env \<Rightarrow> command \<Rightarrow> db \<Rightarrow> result \<times> db" where
  "handle e (CreateRoom sessionId user body) st = createRoom e st sessionId user body"
| "handle e (JoinRoom sessionId roomId user) st = joinRoom (now e) st sessionId roomId user"
| "handle e (LeaveRoom sessionId roomId user) st = leaveRoom st sessionId roomId user"
| "handle e (ListRooms sessionId user) st = listRooms st sessionId user"
| "handle e (CloseRoom sessionId roomId user) st = closeRoom (now e) st sessionId roomId user"
| "handle e (AutoAssign sessionId user) st = autoAssign (now e) st sessionId user"

fun run :: "(env \<times> command) list \<Rightarrow> db \<Rightarrow> db" where
  "run [] st = st"
| "run ((e, c) # cs) st = run cs (snd (handle e c st))"

subsection \<open>Invariants of the room collection\<close>






definition mutedConnected :: "roomParticipant \<Rightarrow> bool" where
  "mutedConnected q = (rp_isMuted q \<and> rp_connectionStatus q = connected)"

definition rosterInvariant :: "db \<Rightarrow> bool" where
  "rosterInvariant st = list_all (\<lambda>room. list_all mutedConnected (r_participants room)) (rooms st)"

text \<open>
  What one request may do to a room's roster: \<open>extendedBy t room room'\<close> holds when
  \<open>room'\<close> is \<open>room\<close> with entries added at the end of its roster, each of them
  muted, connected and joined at \<open>t\<close>.
\<close>

definition freshEntry :: "nat \<Rightarrow> roomParticipant \<Rightarrow> bool" where
  "freshEntry t q = (mutedConnected q \<and> rp_joinedAt q = t)"

definition extendedBy :: "nat \<Rightarrow> breakoutRoom \<Rightarrow> breakoutRoom \<Rightarrow> bool" where
  "extendedBy t room room' =
     (room' = room\<lparr>r_participants := r_participants room'\<rparr> \<and>
      take (length (r_participants room)) (r_participants room') = r_participants room \<and>
      list_all (freshEntry t) (drop (length (r_participants room)) (r_participants room')))"

text \<open>
  The array \<open>breakoutRooms\<close> in memory and the collection agree: every document of
  the array is the one stored at its position, and no position occurs twice.
\<close>

definition linked :: "(nat \<times> breakoutRoom) list \<Rightarrow> db \<Rightarrow> bool" where
  "linked brs st =
     (distinct (map fst brs) \<and>
      list_all (\<lambda>kd. fst kd < length (rooms st) \<and> rooms st ! fst kd = snd kd) brs)"

subsection \<open>Auto-assignment as the specification words it\<close>

text \<open>
  Section 4.2 of the specification: the unassigned participants are the session's
  roster minus the union of the active rooms' rosters, by participant id; they are
  taken in the session's order, the \<open>i\<close>-th goes to \<open>activeRooms[i mod N]\<close> whatever
  the rooms hold, the assignment is committed only if that room has capacity left, and
  a participant whose room is full is skipped.
\<close>

definition spec_unassigned :: "session \<Rightarrow> breakoutRoom list \<Rightarrow> participant list" where
  "spec_unassigned sess activeRooms =
     filter (\<lambda>p. p_id p \<notin> \<Union> ((\<lambda>room. rp_id ` set (r_participants room)) ` set activeRooms))
       (s_participants sess)"

definition spec_hasCapacity :: "breakoutRoom \<Rightarrow> bool" where
  "spec_hasCapacity room = (of_nat (length (r_participants room)) < r_maxParticipants room)"

definition spec_commit :: "nat \<Rightarrow> participant \<Rightarrow> breakoutRoom \<Rightarrow> breakoutRoom" where
  "spec_commit t p room = room\<lparr>r_participants := r_participants room @ [snapshot t p]\<rparr>"

fun spec_roundRobin :: "nat \<Rightarrow> (nat \<times> participant) list \<Rightarrow> breakoutRoom list \<Rightarrow> breakoutRoom list" where
  "spec_roundRobin t [] activeRooms = activeRooms"
| "spec_roundRobin t ((i, p) # rest) activeRooms =
     (let target = i mod length activeRooms
      in spec_roundRobin t rest
           (if spec_hasCapacity (activeRooms ! target)
            then activeRooms[target := spec_commit t p (activeRooms ! target)]
            else activeRooms))"

definition spec_autoAssign :: "nat \<Rightarrow> session \<Rightarrow> breakoutRoom list \<Rightarrow> breakoutRoom list" where
  "spec_autoAssign t sess activeRooms =
     spec_roundRobin t (enumerate 0 (spec_unassigned sess activeRooms)) activeRooms"

subsection \<open>Example states\<close>

text \<open>
  A session \<open>S\<close> of five participants, hosted by \<open>P1\<close>; \<open>P2\<close> is unmuted and
  \<open>P3\<close> is disconnected in the main session. Rooms are made by \<open>mkRoom\<close>: empty,
  of the session \<open>S\<close>, created by \<open>P1\<close>.
\<close>

definition mkParticipant :: "string \<Rightarrow> bool \<Rightarrow> bool \<Rightarrow> connection \<Rightarrow> participant" where
  "mkParticipant i host muted conn =
     \<lparr> p_id = i, p_alias = ''alias_'' @ i, p_avatarIndex = 1, p_isHost = host,
       p_isModerator = False, p_joinedAt = 0, p_isMuted = muted, p_connectionStatus = conn \<rparr>"

definition exSession :: session where
  "exSession =
     \<lparr> s_id = ''S'', s_hostId = ''P1'', s_hostAlias = ''alias_P1'',
       s_participants =
         [mkParticipant ''P1'' True True connected,
          mkParticipant ''P2'' False False connected,
          mkParticipant ''P3'' False True disconnected,
          mkParticipant ''P4'' False True connected,
          mkParticipant ''P5'' False True connected],
       s_breakoutRooms = [0, 1] \<rparr>"

text \<open>
  Names, as code units: \<open>Room\<close>; \<open>Team A\<close>; the single letter \<open>a\<close>; and \<open>a\<close>
  between two no-break spaces.
\<close>

definition roomName :: jsString where
  "roomName = [0x52, 0x6F, 0x6F, 0x6D]"

definition teamA :: jsString where
  "teamA = [0x54, 0x65, 0x61, 0x6D, 0x20, 0x41]"

definition letterA :: jsString where
  "letterA = [0x61]"

definition paddedA :: jsString where
  "paddedA = [0xA0, 0x61, 0xA0]"

definition mkRoom :: "string \<Rightarrow> rat \<Rightarrow> roomStatus \<Rightarrow> breakoutRoom" where
  "mkRoom i m stat =
     \<lparr> r_id = i, r_sessionId = ''S'', r_name = roomName, r_createdBy = ''P1'',
       r_creatorAlias = ''alias_P1'', r_maxParticipants = m,
       r_agoraChannelName = ''breakout_'' @ i, r_agoraToken = ''token'', r_status = stat,
       r_createdAt = 1, r_expiresAt = 3600001,
       r_closedAt = (if stat = closed then Some 2 else None),
       r_participants = [], r_autoAssign = False \<rparr>"

text \<open>Two active rooms of capacity 2.\<close>

definition exDb :: db where
  "exDb = \<lparr> sessions = [exSession], rooms = [mkRoom ''R1'' 2 active, mkRoom ''R2'' 2 active],
            published = [] \<rparr>"

text \<open>One closed room of capacity 2.\<close>

definition closedDb :: db where
  "closedDb = \<lparr> sessions = [exSession], rooms = [mkRoom ''R1'' 2 closed], published = [] \<rparr>"


definition oneDb :: db where
  "oneDb = \<lparr> sessions = [exSession], rooms = [mkRoom ''R1'' 1 active], published = [] \<rparr>"

text \<open>No room yet.\<close>

definition emptyDb :: db where
  "emptyDb = \<lparr> sessions = [exSession], rooms = [], published = [] \<rparr>"

text \<open>
  Three environments: the token generator answers and the schema accepts every
  document; the same with a schema that wants a positive capacity; the same as the
  first with a token generator that throws.
\<close>

definition exEnv :: env where
  "exEnv = \<lparr> now = 5, generateRtcToken = (\<lambda>c. Some (''006'' @ c)), nanoid6 = ''abcdef'',
             nanoid16 = ''0123456789abcdef'', schemaOk = (\<lambda>r. True) \<rparr>"

definition strictEnv :: env where
  "strictEnv = exEnv\<lparr>schemaOk := (\<lambda>r. 0 < r_maxParticipants r)\<rparr>"

definition downEnv :: env where
  "downEnv = exEnv\<lparr>generateRtcToken := (\<lambda>c. None)\<rparr>"

section \<open>Properties\<close>

subsection \<open>Collections\<close>

lemma findOne_SomeD:
  "findOne P xs = Some (k, x) \<Longrightarrow> k < length xs \<and> xs ! k = x \<and> P x"
proof (induction xs arbitrary: k)
  case Nil
  then show ?case by simp
next
  case (Cons a xs)
  show ?case
  proof (cases "P a")
    case True
    with Cons.prems show ?thesis by simp
  next
    case False
    with Cons.prems obtain k' where k: "k = Suc k'" and f: "findOne P xs = Some (k', x)"
      by (auto split: option.splits)
    from Cons.IH [OF f] k show ?thesis by simp
  qed
qed

lemma findOne_update:
  "findOne P xs = Some (k, x) \<Longrightarrow> P y \<Longrightarrow> findOne P (xs[k := y]) = Some (k, y)"
proof (induction xs arbitrary: k)
  case Nil
  then show ?case by simp
next
  case (Cons a xs)
  show ?case
  proof (cases "P a")
    case True
    with Cons.prems show ?thesis by simp
  next
    case False
    with Cons.prems obtain k' where k: "k = Suc k'" and f: "findOne P xs = Some (k', x)"
      by (auto split: option.splits)
    from Cons.IH [OF f Cons.prems(2)] k False show ?thesis by simp
  qed
qed

lemma findOne_list_all: "findOne Q xs = Some (k, x) \<Longrightarrow> list_all P xs \<Longrightarrow> P x"
  using findOne_SomeD [of Q xs k x]
  by (auto simp: list_all_iff)

lemma findIndex_None_iff: "findIndex P xs = None \<longleftrightarrow> \<not> list_ex P xs"
  by (induction xs) (auto split: option.splits)

lemma findIndex_append_new:
  "\<not> list_ex P xs \<Longrightarrow> P x \<Longrightarrow> findIndex P (xs @ [x]) = Some (length xs)"
  by (induction xs) auto

lemma splice1_append_new: "splice1 (length xs) (xs @ [x]) = xs"
  by (simp add: splice1_def)

lemma list_all_splice1: "list_all P xs \<Longrightarrow> list_all P (splice1 i xs)"
  by (auto simp: splice1_def list_all_iff dest: in_set_takeD in_set_dropD)

lemma list_all_update: "list_all P xs \<Longrightarrow> P x \<Longrightarrow> list_all P (xs[k := x])"
  using set_update_subset_insert [of xs k x]
  by (auto simp: list_all_iff)

lemma map_snd_filter_enumerate:
  "map snd (filter (\<lambda>kd. P (snd kd)) (enumerate n xs)) = filter P xs"
  by (induction xs arbitrary: n) simp_all

lemma map_snd_findAll: "map snd (findAll P xs) = filter P xs"
  by (simp add: findAll_def map_snd_filter_enumerate)

lemma findAll_list_all: "list_all P xs \<Longrightarrow> list_all (\<lambda>kd. P (snd kd)) (findAll Q xs)"
proof -
  assume "list_all P xs"
  then have "list_all P (map snd (findAll Q xs))"
    by (simp add: map_snd_findAll list_all_iff)
  then show ?thesis
    by (simp add: list_all_iff)
qed

lemma sessions_publishEvent: "sessions (publishEvent a b c st) = sessions st"
  by (simp add: publishEvent_def)

lemma rooms_publishEvent: "rooms (publishEvent a b c st) = rooms st"
  by (simp add: publishEvent_def)

lemma sessions_saveRoom: "sessions (saveRoom k r st) = sessions st"
  by (simp add: saveRoom_def)

lemma rooms_saveRoom: "rooms (saveRoom k r st) = (rooms st)[k := r]"
  by (simp add: saveRoom_def saveAt_def)

lemma trim_Nil: "trim [] = []"
  by (simp add: trim_def)

subsection \<open>The example states\<close>

lemmas ex_defs = exDb_def closedDb_def emptyDb_def exSession_def mkParticipant_def mkRoom_def
  exEnv_def strictEnv_def downEnv_def

lemmas op_defs = publishEvent_def saveRoom_def saveAt_def snapshot_def Let_def

lemmas trim_defs = trim_def isSpace_def teamA_def paddedA_def letterA_def

lemma mkRoom_simps:
  "r_id (mkRoom i m s) = i" "r_sessionId (mkRoom i m s) = ''S''" "r_status (mkRoom i m s) = s"
  "r_maxParticipants (mkRoom i m s) = m" "r_participants (mkRoom i m s) = []"
  "r_name (mkRoom i m s) = roomName"
  by (simp_all add: mkRoom_def)

lemma mkParticipant_simps:
  "p_id (mkParticipant i h m c) = i" "p_alias (mkParticipant i h m c) = ''alias_'' @ i"
  "p_isHost (mkParticipant i h m c) = h" "p_isModerator (mkParticipant i h m c) = False"
  "p_isMuted (mkParticipant i h m c) = m" "p_connectionStatus (mkParticipant i h m c) = c"
  by (simp_all add: mkParticipant_def)

lemma exSession_simps:
  "s_id exSession = ''S''" "s_hostId exSession = ''P1''"
  "s_participants exSession =
         [mkParticipant ''P1'' True True connected,
          mkParticipant ''P2'' False False connected,
          mkParticipant ''P3'' False True disconnected,
          mkParticipant ''P4'' False True connected,
          mkParticipant ''P5'' False True connected]"
  by (simp_all add: exSession_def)

lemma snapshot_simps:
  "rp_id (snapshot t p) = p_id p" "rp_isMuted (snapshot t p) = True"
  "rp_connectionStatus (snapshot t p) = connected" "rp_joinedAt (snapshot t p) = t"
  by (simp_all add: snapshot_def)

lemma exDb_simps:
  "sessions exDb = [exSession]" "rooms exDb = [mkRoom ''R1'' 2 active, mkRoom ''R2'' 2 active]"
  "published exDb = []"
  by (simp_all add: exDb_def)

lemmas ex_simps = mkRoom_simps mkParticipant_simps exSession_simps snapshot_simps exDb_simps

lemma exDb_session: "findOne (\<lambda>s. s_id s = ''S'') (sessions exDb) = Some (0, exSession)"
  by (simp add: ex_simps)

lemma exDb_active:
  "findAll (\<lambda>r. r_sessionId r = s_id exSession \<and> r_status r = active) (rooms exDb)
     = [(0, mkRoom ''R1'' 2 active), (Suc 0, mkRoom ''R2'' 2 active)]"
  by (simp add: findAll_def enumerate_eq_zip ex_simps)

lemma exDb_unassigned:
  "unassignedParticipants exSession [mkRoom ''R1'' 2 active, mkRoom ''R2'' 2 active]
     = [mkParticipant ''P1'' True True connected,
        mkParticipant ''P2'' False False connected,
        mkParticipant ''P3'' False True disconnected,
        mkParticipant ''P4'' False True connected,
        mkParticipant ''P5'' False True connected]"
  by (simp add: unassignedParticipants_def ex_simps)

subsection \<open>What the handlers answer\<close>

lemma createRoom_bad_name:
  assumes bad: "case b_name body of None \<Rightarrow> True | Some nm \<Rightarrow> length (trim nm) < 2"
  shows "createRoom e st sessionId user body \<in>
           {(Inl SessionNotFound, st), (Inl Forbidden, st), (Inl InvalidArgument, st)}"
  using bad
  by (simp add: createRoom_def split: option.splits prod.splits)

lemma createRoom_good_name:
  assumes sess: "findOne (\<lambda>s. s_id s = sessionId) (sessions st) = Some (j, sess)"
    and creator: "find (\<lambda>p. p_id p = user) (s_participants sess) = Some creator"
    and priv: "p_isHost creator \<or> p_isModerator creator"
    and nm: "b_name body = Some nm"
    and long: "2 \<le> length (trim nm)"
  shows "createRoom e st sessionId user body =
           (if schemaOk e (newRoom e sess creator user nm body)
            then (Inr (RoomCreated (newRoom e sess creator user nm body)),
                  st\<lparr>rooms := rooms st @ [newRoom e sess creator user nm body],
                     sessions := (sessions st)
                       [j := sess\<lparr>s_breakoutRooms := s_breakoutRooms sess @ [length (rooms st)]\<rparr>],
                     published := published st @
                       [Event (''session:'' @ sessionId) ''breakout_room_created''
                          (newRoomId e (s_id sess))]\<rparr>)
            else (Inl InternalError, st))"
proof -
  from long have ne: "nm \<noteq> []"
    by (auto simp: trim_Nil)
  from long have nshort: "\<not> length (trim nm) < 2"
    by simp
  have rid: "r_id (newRoom e sess creator user nm body) = newRoomId e (s_id sess)"
    by (simp add: newRoom_def Let_def)
  show ?thesis
    using priv
    by (auto simp: createRoom_def sess creator nm ne nshort rid op_defs)
qed

lemma joinRoom_success:
  assumes sess: "findOne (\<lambda>s. s_id s = sessionId) (sessions st) = Some (j, sess)"
    and member: "find (\<lambda>p. p_id p = user) (s_participants sess) = Some p"
    and room: "findOne (\<lambda>r. r_id r = roomId) (rooms st) = Some (k, room)"
    and owns: "r_sessionId room = sessionId"
    and space: "of_nat (length (r_participants room)) < r_maxParticipants room"
    and fresh: "user \<notin> rp_id ` set (r_participants room)"
  shows "joinRoom t st sessionId roomId user =
           (Inr (Joined (room\<lparr>r_participants := r_participants room @ [snapshot t (p\<lparr>p_id := user\<rparr>)]\<rparr>)
                   (snapshot t (p\<lparr>p_id := user\<rparr>))),
            st\<lparr>rooms := (rooms st)
                 [k := room\<lparr>r_participants := r_participants room @ [snapshot t (p\<lparr>p_id := user\<rparr>)]\<rparr>],
               published := published st @
                 [Event (''breakout:'' @ roomId) ''participant_joined'' roomId,
                  Event (''session:'' @ sessionId) ''breakout_room_joined'' roomId]\<rparr>)"
proof -
  from findOne_SomeD [OF room] have rid: "r_id room = roomId"
    by simp
  from fresh have absent: "find (\<lambda>q. rp_id q = user) (r_participants room) = None"
    by (auto simp: find_None_iff)
  from space have notfull: "\<not> r_maxParticipants room \<le> of_nat (length (r_participants room))"
    by simp
  show ?thesis
    unfolding joinRoom_def
    by (simp add: sess member room owns notfull absent rid Let_def publishEvent_def saveRoom_def
        saveAt_def)
qed


lemma leaveRoom_success:
  assumes room: "findOne (\<lambda>r. r_id r = roomId) (rooms st) = Some (k, room)"
    and at: "findIndex (\<lambda>q. rp_id q = user) (r_participants room) = Some i"
  shows "leaveRoom st sessionId roomId user =
           (Inr (Left roomId (r_name room)),
            st\<lparr>rooms := (rooms st)[k := room\<lparr>r_participants := splice1 i (r_participants room)\<rparr>],
               published := published st @
                 [Event (''breakout:'' @ roomId) ''participant_left'' roomId,
                  Event (''session:'' @ sessionId) ''breakout_room_left'' roomId]\<rparr>)"
proof -
  from findOne_SomeD [OF room] have rid: "r_id room = roomId"
    by simp
  show ?thesis
    unfolding leaveRoom_def
    by (simp add: room at rid Let_def publishEvent_def saveRoom_def saveAt_def)
qed

text \<open>What the handler answers and stores once the session, the host and a room are there.\<close>

lemma autoAssign_runs_loop:
  assumes sess: "findOne (\<lambda>s. s_id s = sessionId) (sessions st) = Some (j, sess)"
    and host: "s_hostId sess = user"
    and brs: "brs = findAll (\<lambda>r. r_sessionId r = s_id sess \<and> r_status r = active) (rooms st)"
    and some: "brs \<noteq> []"
  shows "autoAssign t st sessionId user =
           (if unassignedParticipants sess (map snd brs) = [] then Inr AllAssigned
            else Inr (AutoAssigned (length (unassignedParticipants sess (map snd brs))) (length brs)),
            snd (assignLoop t (unassignedParticipants sess (map snd brs)) 0 brs st))"
  using some
  by (simp add: autoAssign_def sess host brs [symmetric] Let_def)

subsection \<open>Joining a closed room\<close>

text \<open>
  Claim C1 asks that a join on a closed room fails and leaves the roster as it was.
  The join handler never reads \<open>status\<close>: on the closed room \<open>R1\<close> of \<open>closedDb\<close>
  the join of the session participant \<open>P2\<close> succeeds, the room stays closed and its
  roster grows from empty to \<open>P2\<close>.
\<close>

theorem joinRoom_closed_room_accepts:
  "r_status (rooms closedDb ! 0) = closed \<and>
   \<not> isl (fst (joinRoom 5 closedDb ''S'' ''R1'' ''P2'')) \<and>
   map r_status (rooms (snd (joinRoom 5 closedDb ''S'' ''R1'' ''P2''))) = [closed] \<and>
   map (map rp_id \<circ> r_participants) (rooms closedDb) = [[]] \<and>
   map (map rp_id \<circ> r_participants) (rooms (snd (joinRoom 5 closedDb ''S'' ''R1'' ''P2''))) = [[''P2'']]"
  by (simp add: joinRoom_def ex_defs op_defs)

subsection \<open>Closing a room twice\<close>

text \<open>
  Claim C3 as stated fails: closing \<open>R1\<close> a second time succeeds again and the two
  closure events are published a second time.
\<close>

theorem closeRoom_twice_counterexample:
  "r_status (rooms (snd (closeRoom 5 exDb ''S'' ''R1'' ''P1'')) ! 0) = closed \<and>
   fst (closeRoom 7 (snd (closeRoom 5 exDb ''S'' ''R1'' ''P1'')) ''S'' ''R1'' ''P1'')
     = Inr (Closed ''R1'' roomName) \<and>
   published (snd (closeRoom 7 (snd (closeRoom 5 exDb ''S'' ''R1'' ''P1'')) ''S'' ''R1'' ''P1''))
     = [Event ''breakout:R1'' ''room_closed'' ''R1'',
        Event ''session:S'' ''breakout_room_closed'' ''R1'',
        Event ''breakout:R1'' ''room_closed'' ''R1'',
        Event ''session:S'' ''breakout_room_closed'' ''R1'']"
  by (simp add: closeRoom_def ex_defs op_defs)

text \<open>
  Claim C3, amended. CloseRoom by the session's host on a room that is already closed
  succeeds again: the room keeps its status and its roster, \<open>closedAt\<close> is set to the
  time of this request, no other room and no session changes, and \<open>room_closed\<close> and
  \<open>breakout_room_closed\<close> are published once more.
\<close>

theorem closeRoom_closed_room_again:
  assumes sess: "findOne (\<lambda>s. s_id s = sessionId) (sessions st) = Some (j, sess)"
    and host: "s_hostId sess = user"
    and room: "findOne (\<lambda>r. r_id r = roomId) (rooms st) = Some (k, room)"
    and shut: "r_status room = closed"
  shows "closeRoom t st sessionId roomId user =
           (Inr (Closed roomId (r_name room)),
            st\<lparr>rooms := (rooms st)[k := room\<lparr>r_closedAt := Some t\<rparr>],
               published := published st @
                 [Event (''breakout:'' @ roomId) ''room_closed'' roomId,
                  Event (''session:'' @ sessionId) ''breakout_room_closed'' roomId]\<rparr>)"
proof -
  from findOne_SomeD [OF room] have rid: "r_id room = roomId"
    by simp
  have same: "room\<lparr>r_status := closed, r_closedAt := Some t\<rparr> = room\<lparr>r_closedAt := Some t\<rparr>"
    using shut by simp
  show ?thesis
    unfolding closeRoom_def
    by (simp add: sess host room rid same op_defs)
qed

theorem closeRoom_closed_room_again_witness:
  "closeRoom 7 closedDb ''S'' ''R1'' ''P1'' =
     (Inr (Closed ''R1'' roomName),
      closedDb\<lparr>rooms := [(mkRoom ''R1'' 2 closed)\<lparr>r_closedAt := Some 7\<rparr>],
         published := [Event ''breakout:R1'' ''room_closed'' ''R1'',
                       Event ''session:S'' ''breakout_room_closed'' ''R1'']\<rparr>)"
  using closeRoom_closed_room_again [of "''S''" closedDb 0 exSession "''P1''" "''R1''" 0
      "mkRoom ''R1'' 2 closed" 7]
  by (simp add: ex_defs)

subsection \<open>The room listing\<close>

lemma set_activeRoomsByAge:
  "set (activeRoomsByAge sess rs) = {r \<in> set rs. r_sessionId r = s_id sess \<and> r_status r = active}"
  by (simp add: activeRoomsByAge_def map_snd_findAll)

text \<open>
  Claim C8. For a participant of the session the listing answers with the summaries
  of the session's active rooms, and the \<open>canJoin\<close> flag of each summary is the
  conjunction: the room is active, its roster is shorter than \<open>maxParticipants\<close>,
  and the user is not in the roster. (The query already keeps the active rooms only,
  so the flag's first conjunct is true of every room listed.)
\<close>

theorem listRooms_canJoin:
  assumes sess: "findOne (\<lambda>s. s_id s = sessionId) (sessions st) = Some (j, sess)"
    and member: "find (\<lambda>p. p_id p = user) (s_participants sess) = Some p"
  shows "listRooms st sessionId user =
           (Inr (RoomList (map (summary user) (activeRoomsByAge sess (rooms st)))
                   (length (activeRoomsByAge sess (rooms st)))), st) \<and>
         (\<forall>room \<in> set (activeRoomsByAge sess (rooms st)).
            room \<in> set (rooms st) \<and>
            sm_id (summary user room) = r_id room \<and>
            sm_canJoin (summary user room) =
              (r_status room = active \<and>
               of_nat (length (r_participants room)) < r_maxParticipants room \<and>
               user \<notin> rp_id ` set (r_participants room)))"
proof -
  have listed: "listRooms st sessionId user =
           (Inr (RoomList (map (summary user) (activeRoomsByAge sess (rooms st)))
                   (length (activeRoomsByAge sess (rooms st)))), st)"
    by (simp add: listRooms_def sess member Let_def)
  have flag: "room \<in> set (rooms st) \<and>
            sm_id (summary user room) = r_id room \<and>
            sm_canJoin (summary user room) =
              (r_status room = active \<and>
               of_nat (length (r_participants room)) < r_maxParticipants room \<and>
               user \<notin> rp_id ` set (r_participants room))"
    if "room \<in> set (activeRoomsByAge sess (rooms st))" for room
  proof -
    from that have inside: "room \<in> set (rooms st)" and act: "r_status room = active"
      by (simp_all add: set_activeRoomsByAge)
    have "find (\<lambda>q. rp_id q = user) (r_participants room) = None
            \<longleftrightarrow> user \<notin> rp_id ` set (r_participants room)"
      by (auto simp: find_None_iff)
    with inside act show ?thesis
      by (simp add: summary_def)
  qed
  from listed flag show ?thesis
    by blast
qed

theorem listRooms_canJoin_witness:
  "map sm_canJoin (map (summary ''P2'')
      (activeRoomsByAge exSession (rooms (snd (joinRoom 5 exDb ''S'' ''R1'' ''P2'')))))
     = [False, True] \<and>
   (\<exists>rs. fst (listRooms (snd (joinRoom 5 exDb ''S'' ''R1'' ''P2'')) ''S'' ''P2'')
            = Inr (RoomList rs 2) \<and> map sm_canJoin rs = [False, True])"
  using listRooms_canJoin [of "''S''" "snd (joinRoom 5 exDb ''S'' ''R1'' ''P2'')" 0 exSession
      "''P2''" "mkParticipant ''P2'' False False connected"]
  by (simp add: joinRoom_def ex_defs op_defs activeRoomsByAge_def findAll_def enumerate_eq_zip
      summary_def)

subsection \<open>Creating a room\<close>

text \<open>
  Claim C5, amended. A create request whose name is missing or has fewer than 2
  code units after \<open>trim\<close> (which strips every ECMAScript white space, the no-break
  space among them) is refused and creates nothing; once the session is found
  and the user is its host or a moderator, the refusal is \<open>InvalidArgument\<close>. The
  handler does not check \<open>maxParticipants\<close>: with a valid name and
  \<open>maxParticipants = 0\<close> the answer is never \<open>InvalidArgument\<close>; the room is created
  with capacity 0 when the schema's validators accept the document, and the request
  ends in the internal error of the \<open>catch\<close> block when they refuse it.
\<close>

theorem createRoom_validation:
  "((case b_name body of None \<Rightarrow> True | Some nm \<Rightarrow> length (trim nm) < 2) \<longrightarrow>
      isl (fst (createRoom e st sessionId user body)) \<and>
      snd (createRoom e st sessionId user body) = st) \<and>
   (findOne (\<lambda>s. s_id s = sessionId) (sessions st) = Some (j, sess) \<and>
    find (\<lambda>p. p_id p = user) (s_participants sess) = Some creator \<and>
    (p_isHost creator \<or> p_isModerator creator) \<longrightarrow>
      ((case b_name body of None \<Rightarrow> True | Some nm \<Rightarrow> length (trim nm) < 2) \<longrightarrow>
         createRoom e st sessionId user body = (Inl InvalidArgument, st)) \<and>
      (b_name body = Some nm \<and> 2 \<le> length (trim nm) \<and> b_maxParticipants body = Some 0 \<longrightarrow>
         fst (createRoom e st sessionId user body) =
           (if schemaOk e (newRoom e sess creator user nm body)
            then Inr (RoomCreated (newRoom e sess creator user nm body))
            else Inl InternalError) \<and>
         rooms (snd (createRoom e st sessionId user body)) =
           (if schemaOk e (newRoom e sess creator user nm body)
            then rooms st @ [newRoom e sess creator user nm body]
            else rooms st) \<and>
         r_maxParticipants (newRoom e sess creator user nm body) = 0))"
proof (intro conjI impI)
  assume bad: "case b_name body of None \<Rightarrow> True | Some nm \<Rightarrow> length (trim nm) < 2"
  from createRoom_bad_name [OF bad, of e st sessionId user]
  show "isl (fst (createRoom e st sessionId user body))"
    and "snd (createRoom e st sessionId user body) = st"
    by auto
next
  assume pre: "findOne (\<lambda>s. s_id s = sessionId) (sessions st) = Some (j, sess) \<and>
    find (\<lambda>p. p_id p = user) (s_participants sess) = Some creator \<and>
    (p_isHost creator \<or> p_isModerator creator)"
    and bad: "case b_name body of None \<Rightarrow> True | Some nm \<Rightarrow> length (trim nm) < 2"
  from pre bad show "createRoom e st sessionId user body = (Inl InvalidArgument, st)"
    by (auto simp: createRoom_def trim_Nil split: option.splits)
next
  assume pre: "findOne (\<lambda>s. s_id s = sessionId) (sessions st) = Some (j, sess) \<and>
    find (\<lambda>p. p_id p = user) (s_participants sess) = Some creator \<and>
    (p_isHost creator \<or> p_isModerator creator)"
    and ok: "b_name body = Some nm \<and> 2 \<le> length (trim nm) \<and> b_maxParticipants body = Some 0"
  from pre ok have "createRoom e st sessionId user body =
           (if schemaOk e (newRoom e sess creator user nm body)
            then (Inr (RoomCreated (newRoom e sess creator user nm body)),
                  st\<lparr>rooms := rooms st @ [newRoom e sess creator user nm body],
                     sessions := (sessions st)
                       [j := sess\<lparr>s_breakoutRooms := s_breakoutRooms sess @ [length (rooms st)]\<rparr>],
                     published := published st @
                       [Event (''session:'' @ sessionId) ''breakout_room_created''
                          (newRoomId e (s_id sess))]\<rparr>)
            else (Inl InternalError, st))"
    by (intro createRoom_good_name) simp_all
  then show "fst (createRoom e st sessionId user body) =
           (if schemaOk e (newRoom e sess creator user nm body)
            then Inr (RoomCreated (newRoom e sess creator user nm body))
            else Inl InternalError)"
    and "rooms (snd (createRoom e st sessionId user body)) =
           (if schemaOk e (newRoom e sess creator user nm body)
            then rooms st @ [newRoom e sess creator user nm body]
            else rooms st)"
    by simp_all
  from ok show "r_maxParticipants (newRoom e sess creator user nm body) = 0"
    by (simp add: newRoom_def Let_def)
qed

theorem createRoom_validation_witness:
  "trim paddedA = letterA \<and>
   createRoom exEnv emptyDb ''S'' ''P1''
     \<lparr>b_name = Some letterA, b_maxParticipants = Some 4, b_autoAssign = None\<rparr>
     = (Inl InvalidArgument, emptyDb) \<and>
   createRoom exEnv emptyDb ''S'' ''P1''
     \<lparr>b_name = Some paddedA, b_maxParticipants = Some 4, b_autoAssign = None\<rparr>
     = (Inl InvalidArgument, emptyDb) \<and>
   fst (createRoom exEnv emptyDb ''S'' ''P1''
     \<lparr>b_name = Some teamA, b_maxParticipants = Some 0, b_autoAssign = None\<rparr>)
     = Inr (RoomCreated (newRoom exEnv exSession (mkParticipant ''P1'' True True connected) ''P1''
         teamA \<lparr>b_name = Some teamA, b_maxParticipants = Some 0, b_autoAssign = None\<rparr>))"
  using createRoom_validation [of "\<lparr>b_name = Some letterA, b_maxParticipants = Some 4, b_autoAssign = None\<rparr>"
      exEnv emptyDb "''S''" "''P1''" 0 exSession "mkParticipant ''P1'' True True connected" letterA]
    createRoom_validation [of "\<lparr>b_name = Some paddedA, b_maxParticipants = Some 4, b_autoAssign = None\<rparr>"
      exEnv emptyDb "''S''" "''P1''" 0 exSession "mkParticipant ''P1'' True True connected" paddedA]
    createRoom_validation [of "\<lparr>b_name = Some teamA, b_maxParticipants = Some 0, b_autoAssign = None\<rparr>"
      exEnv emptyDb "''S''" "''P1''" 0 exSession "mkParticipant ''P1'' True True connected" teamA]
  by (simp add: ex_defs trim_defs)

text \<open>
  Claim C5 as stated fails for the capacity: the request with the name \<open>Team A\<close> and
  \<open>maxParticipants = 0\<close> of the host creates the room when the schema accepts every
  document, and ends in an internal error, not \<open>InvalidArgument\<close>, when the schema
  wants a positive capacity.
\<close>

theorem createRoom_zero_capacity_counterexample:
  "fst (createRoom exEnv emptyDb ''S'' ''P1''
     \<lparr>b_name = Some teamA, b_maxParticipants = Some 0, b_autoAssign = None\<rparr>)
     \<noteq> Inl InvalidArgument \<and>
   map r_name (rooms (snd (createRoom exEnv emptyDb ''S'' ''P1''
     \<lparr>b_name = Some teamA, b_maxParticipants = Some 0, b_autoAssign = None\<rparr>)))
     = [teamA] \<and>
   map r_maxParticipants (rooms (snd (createRoom exEnv emptyDb ''S'' ''P1''
     \<lparr>b_name = Some teamA, b_maxParticipants = Some 0, b_autoAssign = None\<rparr>)))
     = [0] \<and>
   createRoom strictEnv emptyDb ''S'' ''P1''
     \<lparr>b_name = Some teamA, b_maxParticipants = Some 0, b_autoAssign = None\<rparr>
     = (Inl InternalError, emptyDb)"
  by (simp add: createRoom_def newRoom_def ex_defs trim_defs op_defs)

text \<open>
  Claim C6. When every precondition other than the token generator is met (the session
  exists, the user is host or moderator, the name is valid, the schema accepts the
  document), the create request succeeds whether the generator answers or throws. The
  room stored carries the generator's token when it answers, and the placeholder when
  it throws: the prefix \<open>temp_breakout_token_\<close> followed by \<open>nanoid(16)\<close>. So the
  stored token of a failure has the prefix, and, for a generator none of whose tokens
  has it, the stored token has the prefix exactly when the generator failed.
\<close>

theorem createRoom_issuer_down:
  assumes sess: "findOne (\<lambda>s. s_id s = sessionId) (sessions st) = Some (j, sess)"
    and creator: "find (\<lambda>p. p_id p = user) (s_participants sess) = Some creator"
    and priv: "p_isHost creator \<or> p_isModerator creator"
    and nm: "b_name body = Some nm"
    and long: "2 \<le> length (trim nm)"
    and valid: "schemaOk e (newRoom e sess creator user nm body)"
  shows "\<exists>room st'. createRoom e st sessionId user body = (Inr (RoomCreated room), st') \<and>
           rooms st' = rooms st @ [room] \<and>
           r_status room = active \<and>
           r_agoraToken room =
             (case generateRtcToken e (channelNameOf (newRoomId e sessionId)) of
                Some token \<Rightarrow> token
              | None \<Rightarrow> ''temp_breakout_token_'' @ nanoid16 e) \<and>
           (generateRtcToken e (channelNameOf (newRoomId e sessionId)) = None
              \<longrightarrow> degraded (r_agoraToken room)) \<and>
           ((\<forall>c token. generateRtcToken e c = Some token \<longrightarrow> \<not> degraded token)
              \<longrightarrow> degraded (r_agoraToken room)
                    = (generateRtcToken e (channelNameOf (newRoomId e sessionId)) = None))"
proof -
  let ?room = "newRoom e sess creator user nm body"
  let ?channel = "channelNameOf (newRoomId e sessionId)"
  from findOne_SomeD [OF sess] have sid: "s_id sess = sessionId"
    by simp
  have token: "r_agoraToken ?room =
      (case generateRtcToken e ?channel of
         Some token \<Rightarrow> token
       | None \<Rightarrow> ''temp_breakout_token_'' @ nanoid16 e)"
    by (simp add: newRoom_def Let_def agoraTokenFor_def sid)
  have stat: "r_status ?room = active"
    by (simp add: newRoom_def Let_def)
  from token have failed: "degraded (r_agoraToken ?room)"
    if "generateRtcToken e ?channel = None"
    using that by (simp add: degraded_def)
  have told: "degraded (r_agoraToken ?room) = (generateRtcToken e ?channel = None)"
    if clean: "\<forall>c token. generateRtcToken e c = Some token \<longrightarrow> \<not> degraded token"
  proof (cases "generateRtcToken e ?channel")
    case None
    with failed show ?thesis by simp
  next
    case (Some tok)
    with clean have "\<not> degraded tok" by blast
    with Some token show ?thesis by simp
  qed
  from createRoom_good_name [OF sess creator priv nm long, of e] valid
  have "createRoom e st sessionId user body =
          (Inr (RoomCreated ?room),
           st\<lparr>rooms := rooms st @ [?room],
              sessions := (sessions st)
                [j := sess\<lparr>s_breakoutRooms := s_breakoutRooms sess @ [length (rooms st)]\<rparr>],
              published := published st @
                [Event (''session:'' @ sessionId) ''breakout_room_created''
                   (newRoomId e (s_id sess))]\<rparr>)"
    by simp
  with token stat failed told show ?thesis
    by simp
qed

theorem createRoom_issuer_down_witness:
  "(\<exists>room st'. createRoom downEnv emptyDb ''S'' ''P1''
       \<lparr>b_name = Some teamA, b_maxParticipants = None, b_autoAssign = None\<rparr>
       = (Inr (RoomCreated room), st') \<and>
     rooms st' = [room] \<and>
     r_agoraToken room = ''temp_breakout_token_0123456789abcdef'' \<and>
     degraded (r_agoraToken room)) \<and>
   (\<exists>room st'. createRoom exEnv emptyDb ''S'' ''P1''
       \<lparr>b_name = Some teamA, b_maxParticipants = None, b_autoAssign = None\<rparr>
       = (Inr (RoomCreated room), st') \<and>
     rooms st' = [room] \<and>
     r_agoraToken room = ''006breakout_breakout_S_abcdef'' \<and>
     \<not> degraded (r_agoraToken room))"
proof -
  let ?body = "\<lparr>b_name = Some teamA, b_maxParticipants = None, b_autoAssign = None\<rparr>"
  have sess: "findOne (\<lambda>s. s_id s = ''S'') (sessions emptyDb) = Some (0, exSession)"
    by (simp add: emptyDb_def exSession_def)
  have creator: "find (\<lambda>p. p_id p = ''P1'') (s_participants exSession)
      = Some (mkParticipant ''P1'' True True connected)"
    by (simp add: exSession_def mkParticipant_def)
  have priv: "p_isHost (mkParticipant ''P1'' True True connected)
      \<or> p_isModerator (mkParticipant ''P1'' True True connected)"
    by (simp add: mkParticipant_def)
  have nm: "b_name ?body = Some teamA"
    by simp
  have long: "2 \<le> length (trim teamA)"
    by (simp add: trim_defs)
  have no_rooms: "rooms emptyDb = []"
    by (simp add: emptyDb_def)
  have clean: "\<forall>c token. generateRtcToken exEnv c = Some token \<longrightarrow> \<not> degraded token"
    by (auto simp: exEnv_def degraded_def)
  from createRoom_issuer_down [OF sess creator priv nm long, of downEnv]
  have down: "\<exists>room st'. createRoom downEnv emptyDb ''S'' ''P1'' ?body = (Inr (RoomCreated room), st') \<and>
     rooms st' = [room] \<and>
     r_agoraToken room = ''temp_breakout_token_0123456789abcdef'' \<and>
     degraded (r_agoraToken room)"
    by (auto simp: downEnv_def exEnv_def no_rooms)
  from createRoom_issuer_down [OF sess creator priv nm long, of exEnv] clean
  have up: "\<exists>room st'. createRoom exEnv emptyDb ''S'' ''P1'' ?body = (Inr (RoomCreated room), st') \<and>
     rooms st' = [room] \<and>
     r_agoraToken room = ''006breakout_breakout_S_abcdef'' \<and>
     \<not> degraded (r_agoraToken room)"
    by (auto simp: exEnv_def no_rooms newRoomId_def channelNameOf_def exSession_def)
  from down up show ?thesis
    by (rule conjI)
qed

subsection \<open>Leaving a room\<close>

text \<open>
  Claim C9. LeaveRoom leaves the main session's participant roster unchanged, whether
  it succeeds or fails: the LiveSanctuarySession collection after the request is the
  one before it, for every state, room and user. For a room that is found, the request
  fails with \<open>NotMember\<close> and changes nothing when the user is not in the roster,
  and succeeds when the user is found at position \<open>i\<close> of the roster: the entry at
  \<open>i\<close> is removed from the stored room and the sessions stay as they were.
\<close>

theorem leaveRoom_keeps_session_roster:
  "sessions (snd (leaveRoom st sessionId roomId user)) = sessions st \<and>
   (findOne (\<lambda>r. r_id r = roomId) (rooms st) = Some (k, room) \<and>
    user \<notin> rp_id ` set (r_participants room)
      \<longrightarrow> leaveRoom st sessionId roomId user = (Inl NotMember, st)) \<and>
   (findOne (\<lambda>r. r_id r = roomId) (rooms st) = Some (k, room) \<and>
    findIndex (\<lambda>q. rp_id q = user) (r_participants room) = Some i
      \<longrightarrow> fst (leaveRoom st sessionId roomId user) = Inr (Left roomId (r_name room)) \<and>
          rooms (snd (leaveRoom st sessionId roomId user))
            = (rooms st)[k := room\<lparr>r_participants := splice1 i (r_participants room)\<rparr>] \<and>
          sessions (snd (leaveRoom st sessionId roomId user)) = sessions st)"
proof (intro conjI impI)
  show frame: "sessions (snd (leaveRoom st sessionId roomId user)) = sessions st"
    by (simp add: leaveRoom_def Let_def sessions_publishEvent sessions_saveRoom
        split: option.split prod.split)
  assume "findOne (\<lambda>r. r_id r = roomId) (rooms st) = Some (k, room) \<and>
    findIndex (\<lambda>q. rp_id q = user) (r_participants room) = Some i"
  then have left: "leaveRoom st sessionId roomId user =
           (Inr (Left roomId (r_name room)),
            st\<lparr>rooms := (rooms st)[k := room\<lparr>r_participants := splice1 i (r_participants room)\<rparr>],
               published := published st @
                 [Event (''breakout:'' @ roomId) ''participant_left'' roomId,
                  Event (''session:'' @ sessionId) ''breakout_room_left'' roomId]\<rparr>)"
    by (simp add: leaveRoom_success)
  then show "fst (leaveRoom st sessionId roomId user) = Inr (Left roomId (r_name room))"
    by simp
  from left show "rooms (snd (leaveRoom st sessionId roomId user))
            = (rooms st)[k := room\<lparr>r_participants := splice1 i (r_participants room)\<rparr>]"
    by simp
  from frame show "sessions (snd (leaveRoom st sessionId roomId user)) = sessions st" .
next
  assume absent: "findOne (\<lambda>r. r_id r = roomId) (rooms st) = Some (k, room) \<and>
    user \<notin> rp_id ` set (r_participants room)"
  then have "findIndex (\<lambda>q. rp_id q = user) (r_participants room) = None"
    by (auto simp: findIndex_None_iff list_ex_iff)
  with absent show "leaveRoom st sessionId roomId user = (Inl NotMember, st)"
    by (simp add: leaveRoom_def)
qed

theorem leaveRoom_keeps_session_roster_witness:
  "leaveRoom exDb ''S'' ''R1'' ''P2'' = (Inl NotMember, exDb) \<and>
   fst (leaveRoom (snd (joinRoom 5 exDb ''S'' ''R1'' ''P2'')) ''S'' ''R1'' ''P2'')
     = Inr (Left ''R1'' roomName) \<and>
   rooms (snd (leaveRoom (snd (joinRoom 5 exDb ''S'' ''R1'' ''P2'')) ''S'' ''R1'' ''P2''))
     = rooms exDb \<and>
   sessions (snd (leaveRoom (snd (joinRoom 5 exDb ''S'' ''R1'' ''P2'')) ''S'' ''R1'' ''P2''))
     = [exSession]"
proof -
  let ?joined = "snd (joinRoom 5 exDb ''S'' ''R1'' ''P2'')"
  let ?room = "(mkRoom ''R1'' 2 active)\<lparr>r_participants :=
      [snapshot 5 ((mkParticipant ''P2'' False False connected)\<lparr>p_id := ''P2''\<rparr>)]\<rparr>"
  have joined: "?joined = exDb\<lparr>rooms := [?room, mkRoom ''R2'' 2 active],
      published := [Event ''breakout:R1'' ''participant_joined'' ''R1'',
                    Event ''session:S'' ''breakout_room_joined'' ''R1'']\<rparr>"
    by (simp add: joinRoom_success [where j = 0 and sess = exSession and k = 0
          and room = "mkRoom ''R1'' 2 active" and p = "mkParticipant ''P2'' False False connected"]
        ex_simps)
  have before: "findOne (\<lambda>r. r_id r = ''R1'') (rooms exDb) = Some (0, mkRoom ''R1'' 2 active)"
    by (simp add: ex_simps)
  have after: "findOne (\<lambda>r. r_id r = ''R1'') (rooms ?joined) = Some (0, ?room)"
    unfolding joined by (simp add: ex_simps)
  have index: "findIndex (\<lambda>q. rp_id q = ''P2'') (r_participants ?room) = Some 0"
    by (simp add: ex_simps)
  from leaveRoom_keeps_session_roster [where st = exDb and roomId = "''R1''" and user = "''P2''"
      and k = 0 and room = "mkRoom ''R1'' 2 active" and sessionId = "''S''"] before
  have a: "leaveRoom exDb ''S'' ''R1'' ''P2'' = (Inl NotMember, exDb)"
    by (simp add: ex_simps)
  from leaveRoom_keeps_session_roster [where st = ?joined and roomId = "''R1''"
      and user = "''P2''" and k = 0 and room = ?room and i = 0 and sessionId = "''S''"]
    after index
  have b: "fst (leaveRoom ?joined ''S'' ''R1'' ''P2'') = Inr (Left ''R1'' roomName)"
    and c: "rooms (snd (leaveRoom ?joined ''S'' ''R1'' ''P2'')) = rooms exDb"
    and d: "sessions (snd (leaveRoom ?joined ''S'' ''R1'' ''P2'')) = [exSession]"
    unfolding joined by (simp_all add: ex_simps splice1_def mkRoom_def)
  show ?thesis
    by (intro conjI a b c d)
qed

subsection \<open>Join, leave, join again\<close>

text \<open>
  Claim C7 as stated fails: after join, leave and join again the user is in the
  roster, so the set of participant ids is not the one before the first join. In
  \<open>exDb\<close>, \<open>P2\<close> and room \<open>R1\<close>: all three requests succeed, the roster was empty
  before and holds \<open>P2\<close> after.
\<close>

theorem join_leave_join_counterexample:
  "\<not> isl (fst (joinRoom 5 exDb ''S'' ''R1'' ''P2'')) \<and>
   \<not> isl (fst (leaveRoom (snd (joinRoom 5 exDb ''S'' ''R1'' ''P2'')) ''S'' ''R1'' ''P2'')) \<and>
   \<not> isl (fst (joinRoom 7
       (snd (leaveRoom (snd (joinRoom 5 exDb ''S'' ''R1'' ''P2'')) ''S'' ''R1'' ''P2''))
       ''S'' ''R1'' ''P2'')) \<and>
   rp_id ` set (r_participants (rooms exDb ! 0)) = {} \<and>
   rp_id ` set (r_participants (rooms (snd (joinRoom 7
       (snd (leaveRoom (snd (joinRoom 5 exDb ''S'' ''R1'' ''P2'')) ''S'' ''R1'' ''P2''))
       ''S'' ''R1'' ''P2'')) ! 0)) = {''P2''}"
  by (simp add: joinRoom_def leaveRoom_def splice1_def ex_defs op_defs)

text \<open>
  Claim C7, amended. For a participant of the session and a room of that session
  whose roster is below capacity and does not hold the user, join, leave and join
  again succeed one after the other. The leave restores the room collection of before
  the first join. After the second join the roster is the one of after the first join
  as far as participant ids go (the ids of before, then the user); the two rosters
  differ in the \<open>joinedAt\<close> of the user's entry only.
\<close>

theorem join_leave_join:
  assumes sess: "findOne (\<lambda>s. s_id s = sessionId) (sessions st) = Some (j, sess)"
    and member: "find (\<lambda>p. p_id p = user) (s_participants sess) = Some p"
    and room: "findOne (\<lambda>r. r_id r = roomId) (rooms st) = Some (k, room)"
    and owns: "r_sessionId room = sessionId"
    and space: "of_nat (length (r_participants room)) < r_maxParticipants room"
    and fresh: "user \<notin> rp_id ` set (r_participants room)"
    and st1: "st1 = snd (joinRoom t1 st sessionId roomId user)"
    and st2: "st2 = snd (leaveRoom st1 sessionId roomId user)"
    and st3: "st3 = snd (joinRoom t3 st2 sessionId roomId user)"
  shows "\<not> isl (fst (joinRoom t1 st sessionId roomId user)) \<and>
         \<not> isl (fst (leaveRoom st1 sessionId roomId user)) \<and>
         \<not> isl (fst (joinRoom t3 st2 sessionId roomId user)) \<and>
         rooms st2 = rooms st \<and> sessions st3 = sessions st \<and>
         rooms st1 = (rooms st)
           [k := room\<lparr>r_participants := r_participants room @ [snapshot t1 (p\<lparr>p_id := user\<rparr>)]\<rparr>] \<and>
         rooms st3 = (rooms st)
           [k := room\<lparr>r_participants := r_participants room @ [snapshot t3 (p\<lparr>p_id := user\<rparr>)]\<rparr>] \<and>
         map rp_id (r_participants (rooms st3 ! k)) = map rp_id (r_participants room) @ [user] \<and>
         map rp_id (r_participants (rooms st3 ! k)) = map rp_id (r_participants (rooms st1 ! k))"
proof -
  let ?q1 = "snapshot t1 (p\<lparr>p_id := user\<rparr>)"
  let ?q3 = "snapshot t3 (p\<lparr>p_id := user\<rparr>)"
  let ?room1 = "room\<lparr>r_participants := r_participants room @ [?q1]\<rparr>"
  let ?room3 = "room\<lparr>r_participants := r_participants room @ [?q3]\<rparr>"
  from findOne_SomeD [OF room] have k: "k < length (rooms st)" and at_k: "rooms st ! k = room"
    and rid: "r_id room = roomId"
    by simp_all
  note join1 = joinRoom_success [OF sess member room owns space fresh, of t1]
  from join1 st1 have rooms1: "rooms st1 = (rooms st)[k := ?room1]"
    and sessions1: "sessions st1 = sessions st"
    by simp_all
  have "r_id ?room1 = roomId"
    using rid by simp
  from findOne_update [OF room, of ?room1] this rooms1
  have room1: "findOne (\<lambda>r. r_id r = roomId) (rooms st1) = Some (k, ?room1)"
    by simp
  from fresh have "\<not> list_ex (\<lambda>q. rp_id q = user) (r_participants room)"
    by (auto simp: list_ex_iff)
  from findIndex_append_new [OF this, of ?q1]
  have index: "findIndex (\<lambda>q. rp_id q = user) (r_participants ?room1)
      = Some (length (r_participants room))"
    by (simp add: snapshot_def)
  note leave = leaveRoom_success [OF room1 index, of sessionId]
  have restored: "?room1\<lparr>r_participants := splice1 (length (r_participants room)) (r_participants ?room1)\<rparr>
      = room"
    by (simp add: splice1_append_new)
  from at_k have same: "(rooms st)[k := room] = rooms st"
    by (metis list_update_id)
  from leave st2 have "rooms st2 = (rooms st1)[k := room]"
    unfolding restored by simp
  with rooms1 same have rooms2: "rooms st2 = rooms st"
    by simp
  from leave st2 sessions1 have sessions2: "sessions st2 = sessions st"
    by simp
  note join3 = joinRoom_success [of sessionId st2 j sess user p roomId k room t3,
      unfolded rooms2 sessions2, OF sess member room owns space fresh]
  from join3 st3 have rooms3: "rooms st3 = (rooms st)[k := ?room3]"
    and sessions3: "sessions st3 = sessions st"
    by (simp_all add: rooms2 sessions2)
  from rooms3 k have ids3: "map rp_id (r_participants (rooms st3 ! k))
      = map rp_id (r_participants room) @ [user]"
    by (simp add: snapshot_def)
  from rooms1 k have ids1: "map rp_id (r_participants (rooms st1 ! k))
      = map rp_id (r_participants room) @ [user]"
    by (simp add: snapshot_def)
  from join1 have ok1: "\<not> isl (fst (joinRoom t1 st sessionId roomId user))"
    by simp
  from leave have ok2: "\<not> isl (fst (leaveRoom st1 sessionId roomId user))"
    by simp
  from join3 have ok3: "\<not> isl (fst (joinRoom t3 st2 sessionId roomId user))"
    by simp
  from ok1 ok2 ok3 rooms2 sessions3 rooms1 rooms3 ids3 ids1 show ?thesis
    by simp
qed

theorem join_leave_join_witness:
  "rooms (snd (leaveRoom (snd (joinRoom 5 exDb ''S'' ''R1'' ''P2'')) ''S'' ''R1'' ''P2'')) = rooms exDb \<and>
   map rp_id (r_participants (rooms (snd (joinRoom 7
       (snd (leaveRoom (snd (joinRoom 5 exDb ''S'' ''R1'' ''P2'')) ''S'' ''R1'' ''P2''))
       ''S'' ''R1'' ''P2'')) ! 0)) = [''P2''] \<and>
   map rp_id (r_participants (rooms (snd (joinRoom 5 exDb ''S'' ''R1'' ''P2'')) ! 0)) = [''P2'']"
proof -
  have sess: "findOne (\<lambda>s. s_id s = ''S'') (sessions exDb) = Some (0, exSession)"
    by (rule exDb_session)
  have member: "find (\<lambda>p. p_id p = ''P2'') (s_participants exSession)
      = Some (mkParticipant ''P2'' False False connected)"
    by (simp add: ex_simps)
  have room: "findOne (\<lambda>r. r_id r = ''R1'') (rooms exDb) = Some (0, mkRoom ''R1'' 2 active)"
    by (simp add: ex_simps)
  from join_leave_join [OF sess member room _ _ _ refl refl refl, of 5 7]
  show ?thesis
    by (simp add: ex_simps)
qed

subsection \<open>Properties kept by every save\<close>

text \<open>
  A predicate on rooms that every append below capacity keeps is kept, on the whole
  collection, by the join handler and by the loop of auto-assign.
\<close>

lemma joinRoom_keeps:
  assumes step: "\<And>room p. P room \<Longrightarrow> of_nat (length (r_participants room)) < r_maxParticipants room
      \<Longrightarrow> P (room\<lparr>r_participants := r_participants room @ [snapshot t p]\<rparr>)"
    and inv: "list_all P (rooms st)"
  shows "list_all P (rooms (snd (joinRoom t st sessionId roomId user)))"
proof (cases "joinRoom t st sessionId roomId user")
  case (Pair res st')
  show ?thesis
  proof (cases res)
    case (Inl err)
    with Pair have "st' = st"
      by (auto simp: joinRoom_def Let_def split: option.splits prod.splits if_splits)
    with Pair inv show ?thesis by simp
  next
    case (Inr ok)
    with Pair obtain k room p where room: "findOne (\<lambda>r. r_id r = roomId) (rooms st) = Some (k, room)"
      and space: "of_nat (length (r_participants room)) < r_maxParticipants room"
      and after: "rooms st' = (rooms st)[k := room\<lparr>r_participants := r_participants room @ [snapshot t p]\<rparr>]"
      by (auto simp: joinRoom_def Let_def rooms_publishEvent rooms_saveRoom
          split: option.splits prod.splits if_splits)
    from findOne_list_all [OF room inv] have "P room" .
    from step [OF this space] have "P (room\<lparr>r_participants := r_participants room @ [snapshot t p]\<rparr>)" .
    from list_all_update [OF inv this] after Pair show ?thesis by simp
  qed
qed

lemma assignLoop_keeps:
  assumes step: "\<And>room p. P room \<Longrightarrow> of_nat (length (r_participants room)) < r_maxParticipants room
      \<Longrightarrow> P (room\<lparr>r_participants := r_participants room @ [snapshot t p]\<rparr>)"
  shows "list_all P (rooms st) \<Longrightarrow> list_all (\<lambda>kd. P (snd kd)) brs \<Longrightarrow> brs \<noteq> []
    \<Longrightarrow> list_all P (rooms (snd (assignLoop t ps roomIndex brs st)))"
proof (induction ps arbitrary: roomIndex brs st)
  case Nil
  then show ?case by simp
next
  case (Cons p ps)
  let ?i = "roomIndex mod length brs"
  let ?k = "fst (brs ! ?i)"
  let ?target = "snd (brs ! ?i)"
  let ?target' = "?target\<lparr>r_participants := r_participants ?target @ [snapshot t p]\<rparr>"
  from Cons.prems(3) have i: "?i < length brs" by simp
  then have mem: "brs ! ?i \<in> set brs" by simp
  with Cons.prems(2) have target: "P ?target" by (auto simp: list_all_iff)
  show ?case
  proof (cases "of_nat (length (r_participants ?target)) < r_maxParticipants ?target")
    case True
    from step [OF target True] have new: "P ?target'" .
    let ?st' = "publishEvent (''user:'' @ p_id p) ''auto_assigned_to_breakout'' (r_id ?target')
        (saveRoom ?k ?target' st)"
    have a: "list_all P (rooms ?st')"
      using list_all_update [OF Cons.prems(1) new]
      by (simp add: rooms_publishEvent rooms_saveRoom)
    have b: "list_all (\<lambda>kd. P (snd kd)) (brs[?i := (?k, ?target')])"
      using list_all_update [OF Cons.prems(2), of "(?k, ?target')"] new by simp
    have c: "brs[?i := (?k, ?target')] \<noteq> []"
      using Cons.prems(3) by simp
    from Cons.IH [OF a b c, of "roomIndex + 1"] True show ?thesis
      by (simp add: Let_def)
  next
    case False
    from Cons.IH [OF Cons.prems, of "roomIndex + 1"] False show ?thesis
      by (simp add: Let_def)
  qed
qed

lemma autoAssign_keeps:
  assumes step: "\<And>room p. P room \<Longrightarrow> of_nat (length (r_participants room)) < r_maxParticipants room
      \<Longrightarrow> P (room\<lparr>r_participants := r_participants room @ [snapshot t p]\<rparr>)"
    and inv: "list_all P (rooms st)"
  shows "list_all P (rooms (snd (autoAssign t st sessionId user)))"
proof -
  have loop: "list_all P (rooms (snd (assignLoop t ps 0 (findAll Q (rooms st)) st)))"
    if "findAll Q (rooms st) \<noteq> []" for ps Q
    using assignLoop_keeps [of P t st "findAll Q (rooms st)" ps 0] step inv that
    by (simp add: findAll_list_all)
  show ?thesis
    using inv loop
    by (auto simp: autoAssign_def Let_def split: option.splits prod.splits)
qed

subsection \<open>Rosters only grow at the end\<close>

lemma extendedBy_iff:
  "extendedBy t room room' \<longleftrightarrow>
     (\<exists>qs. room' = room\<lparr>r_participants := r_participants room @ qs\<rparr> \<and> list_all (freshEntry t) qs)"
proof
  assume ext: "extendedBy t room room'"
  let ?n = "length (r_participants room)"
  from ext have "r_participants room' = r_participants room @ drop ?n (r_participants room')"
    by (metis append_take_drop_id extendedBy_def)
  with ext have "room' = room\<lparr>r_participants := r_participants room @ drop ?n (r_participants room')\<rparr>"
    by (simp add: extendedBy_def)
  moreover from ext have "list_all (freshEntry t) (drop ?n (r_participants room'))"
    by (simp add: extendedBy_def)
  ultimately show "\<exists>qs. room' = room\<lparr>r_participants := r_participants room @ qs\<rparr>
      \<and> list_all (freshEntry t) qs"
    by blast
next
  assume "\<exists>qs. room' = room\<lparr>r_participants := r_participants room @ qs\<rparr> \<and> list_all (freshEntry t) qs"
  then obtain qs where "room' = room\<lparr>r_participants := r_participants room @ qs\<rparr>"
    and "list_all (freshEntry t) qs"
    by blast
  then show "extendedBy t room room'"
    by (simp add: extendedBy_def)
qed

lemma extendedBy_refl: "extendedBy t room room"
  by (simp add: extendedBy_def)

lemma extendedBy_trans:
  assumes "extendedBy t a b" and "extendedBy t b c"
  shows "extendedBy t a c"
proof -
  from assms(1) obtain qs where b: "b = a\<lparr>r_participants := r_participants a @ qs\<rparr>"
    and qs: "list_all (freshEntry t) qs"
    by (auto simp: extendedBy_iff)
  from assms(2) obtain qs' where c: "c = b\<lparr>r_participants := r_participants b @ qs'\<rparr>"
    and qs': "list_all (freshEntry t) qs'"
    by (auto simp: extendedBy_iff)
  from b c have "c = a\<lparr>r_participants := r_participants a @ (qs @ qs')\<rparr>"
    by simp
  moreover from qs qs' have "list_all (freshEntry t) (qs @ qs')"
    by simp
  ultimately show ?thesis
    unfolding extendedBy_iff by blast
qed

lemma extendedBy_snapshot:
  "extendedBy t room (room\<lparr>r_participants := r_participants room @ [snapshot t p]\<rparr>)"
  by (simp add: extendedBy_def freshEntry_def mutedConnected_def snapshot_def)

lemma rooms_extended_refl: "list_all2 (extendedBy t) rs rs"
  by (simp add: list_all2_conv_all_nth extendedBy_refl)

lemma rooms_extended_update:
  assumes "k < length rs" and "extendedBy t (rs ! k) room'"
  shows "list_all2 (extendedBy t) rs (rs[k := room'])"
  using assms
  by (simp add: list_all2_conv_all_nth nth_list_update extendedBy_refl)

lemma rooms_extended_trans:
  "list_all2 (extendedBy t) as bs \<Longrightarrow> list_all2 (extendedBy t) bs cs
    \<Longrightarrow> list_all2 (extendedBy t) as cs"
  by (rule list_all2_trans [of "extendedBy t" "extendedBy t"]) (auto intro: extendedBy_trans)

subsection \<open>The array in memory and the collection\<close>

lemma linked_nth:
  "linked brs st \<longleftrightarrow>
     distinct (map fst brs) \<and>
     (\<forall>n<length brs. fst (brs ! n) < length (rooms st) \<and> rooms st ! fst (brs ! n) = snd (brs ! n))"
  by (simp add: linked_def list_all_length)

lemma findAll_linked: "linked (findAll P (rooms st)) st"
proof -
  have "distinct (map fst (findAll P (rooms st)))"
    by (simp add: findAll_def distinct_map_filter)
  moreover have "fst kd < length (rooms st) \<and> rooms st ! fst kd = snd kd"
    if "kd \<in> set (findAll P (rooms st))" for kd
    using that by (auto simp: findAll_def in_set_enumerate_eq)
  ultimately show ?thesis
    by (simp add: linked_def list_all_iff)
qed

lemma keys_update: "map fst (brs[i := (fst (brs ! i), room')]) = map fst brs"
proof (cases "i < length brs")
  case True
  then show ?thesis
    by (auto simp: list_eq_iff_nth_eq nth_list_update)
next
  case False
  then have "length brs \<le> i" by simp
  then show ?thesis by (simp add: list_update_beyond)
qed

text \<open>One committed assignment keeps the array and the collection in agreement.\<close>

lemma linked_commit:
  assumes link: "linked brs st" and i: "i < length brs"
  shows "linked (brs[i := (fst (brs ! i), room')])
           (publishEvent topic etype rid (saveRoom (fst (brs ! i)) room' st))"
proof -
  let ?k = "fst (brs ! i)"
  from link have dist: "distinct (map fst brs)"
    and at: "\<And>n. n < length brs \<Longrightarrow>
      fst (brs ! n) < length (rooms st) \<and> rooms st ! fst (brs ! n) = snd (brs ! n)"
    by (simp_all add: linked_nth)
  have keys: "map fst (brs[i := (?k, room')]) = map fst brs"
    by (rule keys_update)
  have "fst (brs[i := (?k, room')] ! n) < length ((rooms st)[?k := room']) \<and>
        (rooms st)[?k := room'] ! fst (brs[i := (?k, room')] ! n) = snd (brs[i := (?k, room')] ! n)"
    if n: "n < length brs" for n
  proof (cases "n = i")
    case True
    with at [OF i] i show ?thesis by simp
  next
    case False
    with dist n i have "fst (brs ! n) \<noteq> ?k"
      by (simp add: distinct_conv_nth)
    with False at [OF n] show ?thesis by simp
  qed
  with dist keys show ?thesis
    by (simp add: linked_nth rooms_publishEvent rooms_saveRoom)
qed

lemma assignLoop_keys: "map fst (fst (assignLoop t ps roomIndex brs st)) = map fst brs"
proof (induction ps arbitrary: roomIndex brs st)
  case Nil
  then show ?case by simp
next
  case (Cons p ps)
  from Cons.IH show ?case
    by (simp add: Let_def keys_update)
qed

lemma assignLoop_linked:
  "linked brs st \<Longrightarrow> brs \<noteq> []
    \<Longrightarrow> linked (fst (assignLoop t ps roomIndex brs st)) (snd (assignLoop t ps roomIndex brs st))"
proof (induction ps arbitrary: roomIndex brs st)
  case Nil
  then show ?case by simp
next
  case (Cons p ps)
  let ?i = "roomIndex mod length brs"
  from Cons.prems(2) have i: "?i < length brs" by simp
  show ?case
  proof (cases "of_nat (length (r_participants (snd (brs ! ?i)))) < r_maxParticipants (snd (brs ! ?i))")
    case True
    let ?room' = "(snd (brs ! ?i))\<lparr>r_participants := r_participants (snd (brs ! ?i)) @ [snapshot t p]\<rparr>"
    from linked_commit [OF Cons.prems(1) i]
    have "linked (brs[?i := (fst (brs ! ?i), ?room')])
        (publishEvent (''user:'' @ p_id p) ''auto_assigned_to_breakout'' (r_id ?room')
          (saveRoom (fst (brs ! ?i)) ?room' st))" .
    moreover from Cons.prems(2) have "brs[?i := (fst (brs ! ?i), ?room')] \<noteq> []" by simp
    ultimately show ?thesis
      using Cons.IH True by (simp add: Let_def)
  next
    case False
    with Cons.IH [OF Cons.prems] show ?thesis
      by (simp add: Let_def)
  qed
qed

lemma assignLoop_extends:
  "linked brs st \<Longrightarrow> brs \<noteq> []
    \<Longrightarrow> list_all2 (extendedBy t) (rooms st) (rooms (snd (assignLoop t ps roomIndex brs st)))"
proof (induction ps arbitrary: roomIndex brs st)
  case Nil
  then show ?case by (simp add: rooms_extended_refl)
next
  case (Cons p ps)
  let ?i = "roomIndex mod length brs"
  let ?k = "fst (brs ! ?i)"
  from Cons.prems(2) have i: "?i < length brs" by simp
  show ?case
  proof (cases "of_nat (length (r_participants (snd (brs ! ?i)))) < r_maxParticipants (snd (brs ! ?i))")
    case True
    let ?room' = "(snd (brs ! ?i))\<lparr>r_participants := r_participants (snd (brs ! ?i)) @ [snapshot t p]\<rparr>"
    let ?st' = "publishEvent (''user:'' @ p_id p) ''auto_assigned_to_breakout'' (r_id ?room')
          (saveRoom ?k ?room' st)"
    from Cons.prems(1) i have k: "?k < length (rooms st)" and same: "rooms st ! ?k = snd (brs ! ?i)"
      by (simp_all add: linked_nth)
    have "extendedBy t (rooms st ! ?k) ?room'"
      unfolding same by (rule extendedBy_snapshot)
    from rooms_extended_update [OF k this]
    have first: "list_all2 (extendedBy t) (rooms st) (rooms ?st')"
      by (simp add: rooms_publishEvent rooms_saveRoom)
    from linked_commit [OF Cons.prems(1) i]
    have link': "linked (brs[?i := (?k, ?room')]) ?st'" .
    from Cons.prems(2) have ne: "brs[?i := (?k, ?room')] \<noteq> []" by simp
    from Cons.IH [OF link' ne, of "roomIndex + 1"]
    have "list_all2 (extendedBy t) (rooms ?st')
        (rooms (snd (assignLoop t ps (roomIndex + 1) (brs[?i := (?k, ?room')]) ?st')))" .
    from rooms_extended_trans [OF first this] True show ?thesis
      by (simp add: Let_def)
  next
    case False
    with Cons.IH [OF Cons.prems, of "roomIndex + 1"] show ?thesis
      by (simp add: Let_def)
  qed
qed

lemma joinRoom_extends:
  "list_all2 (extendedBy t) (rooms st) (rooms (snd (joinRoom t st sessionId roomId user)))"
proof (cases "joinRoom t st sessionId roomId user")
  case (Pair res st')
  show ?thesis
  proof (cases res)
    case (Inl err)
    with Pair have "st' = st"
      by (auto simp: joinRoom_def Let_def split: option.splits prod.splits if_splits)
    with Pair show ?thesis by (simp add: rooms_extended_refl)
  next
    case (Inr ok)
    with Pair obtain k room p where room: "findOne (\<lambda>r. r_id r = roomId) (rooms st) = Some (k, room)"
      and after: "rooms st' = (rooms st)[k := room\<lparr>r_participants := r_participants room @ [snapshot t p]\<rparr>]"
      by (auto simp: joinRoom_def Let_def rooms_publishEvent rooms_saveRoom
          split: option.splits prod.splits if_splits)
    from findOne_SomeD [OF room] have k: "k < length (rooms st)" and same: "rooms st ! k = room"
      by simp_all
    have "extendedBy t (rooms st ! k) (room\<lparr>r_participants := r_participants room @ [snapshot t p]\<rparr>)"
      unfolding same by (rule extendedBy_snapshot)
    from rooms_extended_update [OF k this] after Pair show ?thesis by simp
  qed
qed

lemma autoAssign_extends:
  "list_all2 (extendedBy t) (rooms st) (rooms (snd (autoAssign t st sessionId user)))"
proof -
  have "list_all2 (extendedBy t) (rooms st) (rooms (snd (assignLoop t ps 0 (findAll Q (rooms st)) st)))"
    if "findAll Q (rooms st) \<noteq> []" for ps Q
    using assignLoop_extends [OF findAll_linked that] .
  then show ?thesis
    by (auto simp: autoAssign_def Let_def rooms_extended_refl split: option.splits prod.splits)
qed

subsection \<open>The capacity of a room\<close>
















subsection \<open>Two joins that overlap\<close>

lemma joinRoom_read_then_save:
  "joinRoom t st sessionId roomId user =
     (case joinRead t st sessionId roomId user of
        Inl err \<Rightarrow> (Inl err, st)
      | Inr pending \<Rightarrow> joinSave sessionId roomId pending st)"
proof (cases "findOne (\<lambda>r. r_id r = roomId) (rooms st)")
  case None
  then show ?thesis
    by (simp add: joinRoom_def joinRead_def split: option.splits prod.splits)
next
  case (Some found)
  obtain k room where found: "found = (k, room)" by (cases found)
  from findOne_SomeD [OF Some [unfolded found]] have "rooms st ! k = room"
    by simp
  with Some found show ?thesis
    by (simp add: joinRoom_def joinRead_def joinSave_def Let_def split: option.splits prod.splits)
qed

text \<open>
  Two joins for the one place of a room of capacity 1, the second read before the
  first save: both pass the capacity check and both are answered with success, and
  once both saves have completed the roster holds two entries.
\<close>

lemma overlapping_joins_exceed_capacity:
  "joinRead 5 oneDb ''S'' ''R1'' ''P1''
     = Inr (0, mkRoom ''R1'' 1 active,
            snapshot 5 ((mkParticipant ''P1'' True True connected)\<lparr>p_id := ''P1''\<rparr>)) \<and>
   joinRead 5 oneDb ''S'' ''R1'' ''P2''
     = Inr (0, mkRoom ''R1'' 1 active,
            snapshot 5 ((mkParticipant ''P2'' False False connected)\<lparr>p_id := ''P2''\<rparr>)) \<and>
   \<not> isl (fst (joinSave ''S'' ''R1''
       (0, mkRoom ''R1'' 1 active,
        snapshot 5 ((mkParticipant ''P1'' True True connected)\<lparr>p_id := ''P1''\<rparr>)) oneDb)) \<and>
   \<not> isl (fst (joinSave ''S'' ''R1''
       (0, mkRoom ''R1'' 1 active,
        snapshot 5 ((mkParticipant ''P2'' False False connected)\<lparr>p_id := ''P2''\<rparr>))
       (snd (joinSave ''S'' ''R1''
          (0, mkRoom ''R1'' 1 active,
           snapshot 5 ((mkParticipant ''P1'' True True connected)\<lparr>p_id := ''P1''\<rparr>)) oneDb)))) \<and>
   map (map rp_id \<circ> r_participants)
     (rooms (snd (joinSave ''S'' ''R1''
       (0, mkRoom ''R1'' 1 active,
        snapshot 5 ((mkParticipant ''P2'' False False connected)\<lparr>p_id := ''P2''\<rparr>))
       (snd (joinSave ''S'' ''R1''
          (0, mkRoom ''R1'' 1 active,
           snapshot 5 ((mkParticipant ''P1'' True True connected)\<lparr>p_id := ''P1''\<rparr>)) oneDb)))))
     = [[''P1'', ''P2'']] \<and>
   map r_maxParticipants (rooms oneDb) = [1]"
  by (simp add: joinRead_def joinSave_def oneDb_def ex_simps publishEvent_def saveRoom_def
      saveAt_def Let_def)

subsection \<open>Every roster entry is muted and connected\<close>

lemma leaveRoom_keeps_roster:
  assumes "rosterInvariant st"
  shows "rosterInvariant (snd (leaveRoom st sessionId roomId user))"
proof (cases "findOne (\<lambda>r. r_id r = roomId) (rooms st)")
  case None
  with assms show ?thesis by (simp add: leaveRoom_def)
next
  case (Some found)
  obtain k room where found: "found = (k, room)" by (cases found)
  from assms have all: "list_all (\<lambda>room. list_all mutedConnected (r_participants room)) (rooms st)"
    by (simp add: rosterInvariant_def)
  from findOne_list_all [OF Some [unfolded found] all]
  have "list_all mutedConnected (r_participants room)" .
  then have "list_all mutedConnected (r_participants (room\<lparr>r_participants := splice1 i (r_participants room)\<rparr>))"
    for i
    by (simp add: list_all_splice1)
  from list_all_update [OF all this] assms Some found show ?thesis
    by (simp add: leaveRoom_def rosterInvariant_def Let_def rooms_publishEvent rooms_saveRoom
        split: option.splits)
qed

lemma closeRoom_keeps_roster:
  assumes "rosterInvariant st"
  shows "rosterInvariant (snd (closeRoom t st sessionId roomId user))"
proof (cases "findOne (\<lambda>r. r_id r = roomId) (rooms st)")
  case None
  with assms show ?thesis by (simp add: closeRoom_def split: option.splits prod.splits)
next
  case (Some found)
  obtain k room where found: "found = (k, room)" by (cases found)
  from assms have all: "list_all (\<lambda>room. list_all mutedConnected (r_participants room)) (rooms st)"
    by (simp add: rosterInvariant_def)
  from findOne_list_all [OF Some [unfolded found] all]
  have "list_all mutedConnected (r_participants (room\<lparr>r_status := closed, r_closedAt := Some t\<rparr>))"
    by simp
  from list_all_update [OF all this] assms Some found show ?thesis
    by (simp add: closeRoom_def rosterInvariant_def Let_def rooms_publishEvent rooms_saveRoom
        split: option.splits prod.splits)
qed

lemma createRoom_keeps_roster:
  assumes "rosterInvariant st"
  shows "rosterInvariant (snd (createRoom e st sessionId user body))"
proof -
  have "r_participants (newRoom e sess creator user nm body) = []" for sess creator nm
    by (simp add: newRoom_def Let_def)
  with assms show ?thesis
    by (simp add: createRoom_def rosterInvariant_def Let_def rooms_publishEvent
        split: option.splits prod.splits)
qed

lemma handle_keeps_roster:
  assumes "rosterInvariant st"
  shows "rosterInvariant (snd (handle e c st))"
proof -
  let ?P = "\<lambda>room. list_all mutedConnected (r_participants room)"
  from assms have all: "list_all ?P (rooms st)"
    by (simp add: rosterInvariant_def)
  show ?thesis
  proof (cases c)
  case (CreateRoom sessionId user body)
  with assms show ?thesis by (simp add: createRoom_keeps_roster)
next
  case (JoinRoom sessionId roomId user)
  have "list_all ?P (rooms (snd (joinRoom (now e) st sessionId roomId user)))"
    by (rule joinRoom_keeps [where P = ?P]) (simp_all add: mutedConnected_def snapshot_def all)
  with JoinRoom show ?thesis
    by (simp add: rosterInvariant_def)
next
  case (LeaveRoom sessionId roomId user)
  with assms show ?thesis by (simp add: leaveRoom_keeps_roster)
next
  case (ListRooms sessionId user)
  with assms show ?thesis
    by (simp add: listRooms_def Let_def split: option.splits prod.splits)
next
  case (CloseRoom sessionId roomId user)
  with assms show ?thesis by (simp add: closeRoom_keeps_roster)
next
  case (AutoAssign sessionId user)
  have "list_all ?P (rooms (snd (autoAssign (now e) st sessionId user)))"
    by (rule autoAssign_keeps [where P = ?P]) (simp_all add: mutedConnected_def snapshot_def all)
  with AutoAssign show ?thesis
    by (simp add: rosterInvariant_def)
  qed
qed

lemma run_keeps_roster: "rosterInvariant st \<Longrightarrow> rosterInvariant (run cs st)"
proof (induction cs arbitrary: st)
  case Nil
  then show ?case by simp
next
  case (Cons ec cs)
  obtain e c where ec: "ec = (e, c)" by (cases ec)
  from handle_keeps_roster [OF Cons.prems, of e c] Cons.IH ec show ?case by simp
qed

text \<open>
  Claim C10. The entry that JoinRoom or AutoAssign appends is \<open>snapshot t p\<close>: muted,
  connected and joined at the time \<open>t\<close> of the request, whatever the participant
  \<open>p\<close> of the main session holds in \<open>isMuted\<close> and \<open>connectionStatus\<close>. Either
  request leaves every stored room as it was but for such entries added at the end of
  its roster. Every request keeps the invariant that all roster entries are muted and
  connected, so it holds after every sequence of requests that starts without rooms.
\<close>

theorem roster_entries_muted_connected:
  "rp_isMuted (snapshot t p) \<and> rp_connectionStatus (snapshot t p) = connected \<and>
   rp_joinedAt (snapshot t p) = t \<and>
   list_all2 (extendedBy t) (rooms st) (rooms (snd (joinRoom t st sessionId roomId user))) \<and>
   list_all2 (extendedBy t) (rooms st) (rooms (snd (autoAssign t st sessionId user))) \<and>
   (rosterInvariant st \<longrightarrow> rosterInvariant (snd (handle e c st))) \<and>
   (rooms st = [] \<longrightarrow> rosterInvariant (run cs st))"
proof (intro conjI impI)
  show "rp_isMuted (snapshot t p)" and "rp_connectionStatus (snapshot t p) = connected"
    and "rp_joinedAt (snapshot t p) = t"
    by (simp_all add: snapshot_def)
  show "list_all2 (extendedBy t) (rooms st) (rooms (snd (joinRoom t st sessionId roomId user)))"
    by (rule joinRoom_extends)
  show "list_all2 (extendedBy t) (rooms st) (rooms (snd (autoAssign t st sessionId user)))"
    by (rule autoAssign_extends)
next
  assume "rosterInvariant st"
  then show "rosterInvariant (snd (handle e c st))"
    by (rule handle_keeps_roster)
next
  assume "rooms st = []"
  then have "rosterInvariant st"
    by (simp add: rosterInvariant_def)
  then show "rosterInvariant (run cs st)"
    by (rule run_keeps_roster)
qed

theorem roster_entries_muted_connected_witness:
  "list_all2 (extendedBy 5) (rooms exDb) (rooms (snd (joinRoom 5 exDb ''S'' ''R1'' ''P2''))) \<and>
   list_all2 (extendedBy 5) (rooms exDb) (rooms (snd (autoAssign 5 exDb ''S'' ''P1''))) \<and>
   rosterInvariant exDb \<and>
   rosterInvariant (snd (handle exEnv (AutoAssign ''S'' ''P1'') exDb)) \<and>
   rosterInvariant
     (run [(exEnv, CreateRoom ''S'' ''P1''
              \<lparr>b_name = Some teamA, b_maxParticipants = None, b_autoAssign = None\<rparr>),
           (exEnv, JoinRoom ''S'' ''breakout_S_abcdef'' ''P2''),
           (exEnv, AutoAssign ''S'' ''P1''),
           (exEnv, LeaveRoom ''S'' ''breakout_S_abcdef'' ''P2''),
           (exEnv, CloseRoom ''S'' ''breakout_S_abcdef'' ''P1'')] emptyDb) \<and>
   map (\<lambda>q. (rp_id q, rp_isMuted q, rp_connectionStatus q))
       (r_participants (rooms (snd (joinRoom 5 exDb ''S'' ''R1'' ''P2'')) ! 0))
     = [(''P2'', True, connected)]"
proof -
  have start: "rosterInvariant exDb"
    by (simp add: rosterInvariant_def ex_defs)
  have empty: "rooms emptyDb = []"
    by (simp add: emptyDb_def)
  have entry: "map (\<lambda>q. (rp_id q, rp_isMuted q, rp_connectionStatus q))
       (r_participants (rooms (snd (joinRoom 5 exDb ''S'' ''R1'' ''P2'')) ! 0))
     = [(''P2'', True, connected)]"
    by (simp add: joinRoom_def ex_defs op_defs)
  from roster_entries_muted_connected [where st = exDb and t = 5 and sessionId = "''S''"
      and roomId = "''R1''" and user = "''P2''" and e = exEnv and c = "AutoAssign ''S'' ''P1''"]
    start
  have a: "list_all2 (extendedBy 5) (rooms exDb) (rooms (snd (joinRoom 5 exDb ''S'' ''R1'' ''P2'')))"
    and b: "rosterInvariant (snd (handle exEnv (AutoAssign ''S'' ''P1'') exDb))"
    by simp_all
  from roster_entries_muted_connected [where st = exDb and t = 5 and sessionId = "''S''"
      and user = "''P1''"]
  have c: "list_all2 (extendedBy 5) (rooms exDb) (rooms (snd (autoAssign 5 exDb ''S'' ''P1'')))"
    by simp
  from roster_entries_muted_connected [where st = emptyDb] empty
  have d: "rosterInvariant (run cs emptyDb)" for cs
    by simp
  show ?thesis
    by (intro conjI a b c d start entry)
qed

subsection \<open>Auto-assignment is the specification's round robin\<close>

lemma held_by_a_room:
  "list_ex (\<lambda>room. list_ex (\<lambda>q. rp_id q = x) (r_participants room)) rs
     \<longleftrightarrow> x \<in> \<Union> ((\<lambda>room. rp_id ` set (r_participants room)) ` set rs)"
  unfolding list_ex_iff by blast

lemma unassigned_eq: "unassignedParticipants sess rs = spec_unassigned sess rs"
  by (simp add: unassignedParticipants_def spec_unassigned_def held_by_a_room)

lemma assignLoop_roundRobin:
  "brs \<noteq> [] \<Longrightarrow>
     map snd (fst (assignLoop t ps roomIndex brs st))
       = spec_roundRobin t (enumerate roomIndex ps) (map snd brs)"
proof (induction ps arbitrary: roomIndex brs st)
  case Nil
  then show ?case by simp
next
  case (Cons p ps)
  let ?i = "roomIndex mod length brs"
  let ?room' = "(snd (brs ! ?i))\<lparr>r_participants := r_participants (snd (brs ! ?i)) @ [snapshot t p]\<rparr>"
  from Cons.prems have i: "?i < length brs" by simp
  then have target: "map snd brs ! ?i = snd (brs ! ?i)" by simp
  show ?case
  proof (cases "of_nat (length (r_participants (snd (brs ! ?i)))) < r_maxParticipants (snd (brs ! ?i))")
    case True
    from Cons.prems have "brs[?i := (fst (brs ! ?i), ?room')] \<noteq> []" by simp
    from Cons.IH [OF this, of "Suc roomIndex"] True target show ?thesis
      by (simp add: Let_def spec_hasCapacity_def spec_commit_def map_update)
  next
    case False
    with Cons.IH [OF Cons.prems, of "Suc roomIndex"] target show ?thesis
      by (simp add: Let_def spec_hasCapacity_def)
  qed
qed

lemma assignLoop_others:
  "brs \<noteq> [] \<Longrightarrow> k \<notin> fst ` set brs
    \<Longrightarrow> rooms (snd (assignLoop t ps roomIndex brs st)) ! k = rooms st ! k"
proof (induction ps arbitrary: roomIndex brs st)
  case Nil
  then show ?case by simp
next
  case (Cons p ps)
  let ?i = "roomIndex mod length brs"
  let ?room' = "(snd (brs ! ?i))\<lparr>r_participants := r_participants (snd (brs ! ?i)) @ [snapshot t p]\<rparr>"
  from Cons.prems(1) have i: "?i < length brs" by simp
  with Cons.prems(2) have other: "fst (brs ! ?i) \<noteq> k"
    by (metis image_eqI nth_mem)
  show ?case
  proof (cases "of_nat (length (r_participants (snd (brs ! ?i)))) < r_maxParticipants (snd (brs ! ?i))")
    case True
    from Cons.prems(1) have ne: "brs[?i := (fst (brs ! ?i), ?room')] \<noteq> []" by simp
    have "fst ` set (brs[?i := (fst (brs ! ?i), ?room')]) = fst ` set brs"
      using keys_update [of brs ?i ?room'] by (metis set_map)
    with Cons.prems(2) have out: "k \<notin> fst ` set (brs[?i := (fst (brs ! ?i), ?room')])" by simp
    from Cons.IH [OF ne out, of "Suc roomIndex"] True other show ?thesis
      by (simp add: Let_def rooms_publishEvent rooms_saveRoom)
  next
    case False
    with Cons.IH [OF Cons.prems, of "Suc roomIndex"] show ?thesis
      by (simp add: Let_def)
  qed
qed

lemma exDb_loop:
  "assignLoop 9
       [mkParticipant ''P1'' True True connected,
        mkParticipant ''P2'' False False connected,
        mkParticipant ''P3'' False True disconnected,
        mkParticipant ''P4'' False True connected,
        mkParticipant ''P5'' False True connected] 0
       [(0, mkRoom ''R1'' 2 active), (Suc 0, mkRoom ''R2'' 2 active)] exDb
     = ([(0, (mkRoom ''R1'' 2 active)\<lparr>r_participants :=
               [snapshot 9 (mkParticipant ''P1'' True True connected),
                snapshot 9 (mkParticipant ''P3'' False True disconnected)]\<rparr>),
         (Suc 0, (mkRoom ''R2'' 2 active)\<lparr>r_participants :=
               [snapshot 9 (mkParticipant ''P2'' False False connected),
                snapshot 9 (mkParticipant ''P4'' False True connected)]\<rparr>)],
        exDb\<lparr>rooms :=
            [(mkRoom ''R1'' 2 active)\<lparr>r_participants :=
               [snapshot 9 (mkParticipant ''P1'' True True connected),
                snapshot 9 (mkParticipant ''P3'' False True disconnected)]\<rparr>,
             (mkRoom ''R2'' 2 active)\<lparr>r_participants :=
               [snapshot 9 (mkParticipant ''P2'' False False connected),
                snapshot 9 (mkParticipant ''P4'' False True connected)]\<rparr>],
          published :=
            [Event ''user:P1'' ''auto_assigned_to_breakout'' ''R1'',
             Event ''user:P2'' ''auto_assigned_to_breakout'' ''R2'',
             Event ''user:P3'' ''auto_assigned_to_breakout'' ''R1'',
             Event ''user:P4'' ''auto_assigned_to_breakout'' ''R2'']\<rparr>)"
  by (simp add: ex_simps Let_def publishEvent_def saveRoom_def saveAt_def mod_Suc)

lemma exDb_autoAssign:
  "autoAssign 9 exDb ''S'' ''P1''
     = (Inr (AutoAssigned 5 2),
        exDb\<lparr>rooms :=
            [(mkRoom ''R1'' 2 active)\<lparr>r_participants :=
               [snapshot 9 (mkParticipant ''P1'' True True connected),
                snapshot 9 (mkParticipant ''P3'' False True disconnected)]\<rparr>,
             (mkRoom ''R2'' 2 active)\<lparr>r_participants :=
               [snapshot 9 (mkParticipant ''P2'' False False connected),
                snapshot 9 (mkParticipant ''P4'' False True connected)]\<rparr>],
          published :=
            [Event ''user:P1'' ''auto_assigned_to_breakout'' ''R1'',
             Event ''user:P2'' ''auto_assigned_to_breakout'' ''R2'',
             Event ''user:P3'' ''auto_assigned_to_breakout'' ''R1'',
             Event ''user:P4'' ''auto_assigned_to_breakout'' ''R2'']\<rparr>)"
proof -
  have host: "s_hostId exSession = ''P1''"
    by (simp add: ex_simps)
  have un: "unassignedParticipants exSession
        (map snd [(0::nat, mkRoom ''R1'' 2 active), (Suc 0, mkRoom ''R2'' 2 active)])
     = [mkParticipant ''P1'' True True connected,
        mkParticipant ''P2'' False False connected,
        mkParticipant ''P3'' False True disconnected,
        mkParticipant ''P4'' False True connected,
        mkParticipant ''P5'' False True connected]"
    by (simp add: exDb_unassigned)
  have "autoAssign 9 exDb ''S'' ''P1'' =
      (if unassignedParticipants exSession
            (map snd [(0::nat, mkRoom ''R1'' 2 active), (Suc 0, mkRoom ''R2'' 2 active)]) = []
       then Inr AllAssigned
       else Inr (AutoAssigned
         (length (unassignedParticipants exSession
            (map snd [(0::nat, mkRoom ''R1'' 2 active), (Suc 0, mkRoom ''R2'' 2 active)])))
         (length [(0::nat, mkRoom ''R1'' 2 active), (Suc 0, mkRoom ''R2'' 2 active)])),
       snd (assignLoop 9 (unassignedParticipants exSession
            (map snd [(0::nat, mkRoom ''R1'' 2 active), (Suc 0, mkRoom ''R2'' 2 active)])) 0
          [(0::nat, mkRoom ''R1'' 2 active), (Suc 0, mkRoom ''R2'' 2 active)] exDb))"
    by (rule autoAssign_runs_loop [OF exDb_session host exDb_active [symmetric]]) simp
  then show ?thesis
    unfolding un exDb_loop by simp
qed

text \<open>
  Claim C4. For the roster \<open>P1 .. P5\<close> and the two empty active rooms \<open>R1\<close>, \<open>R2\<close> of
  capacity 2, auto-assign by the host stores \<open>P1, P3\<close> in \<open>R1\<close> and \<open>P2, P4\<close> in
  \<open>R2\<close>, notifies these four and leaves \<open>P5\<close> in no room. In general, once the session
  is found, the user is its host and the session has an active room: the participants
  the handler takes are the specification's unassigned ones (the session's roster, in
  its order, without the ids held by an active room); the active rooms stored after the
  request are those of the specification's round robin (the \<open>i\<close>-th unassigned
  participant goes to room \<open>i mod N\<close>, is appended only if that room has capacity left
  and is skipped otherwise); and no other room changes. The result is a function of the
  state and the time of the request.
\<close>

theorem autoAssign_round_robin:
  "(fst (autoAssign 9 exDb ''S'' ''P1'') = Inr (AutoAssigned 5 2) \<and>
    map (map rp_id \<circ> r_participants) (rooms (snd (autoAssign 9 exDb ''S'' ''P1'')))
      = [[''P1'', ''P3''], [''P2'', ''P4'']] \<and>
    published (snd (autoAssign 9 exDb ''S'' ''P1''))
      = [Event ''user:P1'' ''auto_assigned_to_breakout'' ''R1'',
         Event ''user:P2'' ''auto_assigned_to_breakout'' ''R2'',
         Event ''user:P3'' ''auto_assigned_to_breakout'' ''R1'',
         Event ''user:P4'' ''auto_assigned_to_breakout'' ''R2'']) \<and>
   (findOne (\<lambda>s. s_id s = sessionId) (sessions st) = Some (j, sess) \<and>
    s_hostId sess = user \<and>
    brs = findAll (\<lambda>r. r_sessionId r = s_id sess \<and> r_status r = active) (rooms st) \<and>
    brs \<noteq> [] \<longrightarrow>
      unassignedParticipants sess (map snd brs) = spec_unassigned sess (map snd brs) \<and>
      fst (autoAssign t st sessionId user)
        = (if spec_unassigned sess (map snd brs) = [] then Inr AllAssigned
           else Inr (AutoAssigned (length (spec_unassigned sess (map snd brs))) (length brs))) \<and>
      length (rooms (snd (autoAssign t st sessionId user))) = length (rooms st) \<and>
      (\<forall>n<length brs. rooms (snd (autoAssign t st sessionId user)) ! fst (brs ! n)
                        = spec_autoAssign t sess (map snd brs) ! n) \<and>
      (\<forall>k. k \<notin> fst ` set brs \<longrightarrow>
           rooms (snd (autoAssign t st sessionId user)) ! k = rooms st ! k))"
proof (intro conjI impI)
  show "fst (autoAssign 9 exDb ''S'' ''P1'') = Inr (AutoAssigned 5 2)"
    by (simp add: exDb_autoAssign)
  show "map (map rp_id \<circ> r_participants) (rooms (snd (autoAssign 9 exDb ''S'' ''P1'')))
      = [[''P1'', ''P3''], [''P2'', ''P4'']]"
    by (simp add: exDb_autoAssign ex_simps)
  show "published (snd (autoAssign 9 exDb ''S'' ''P1''))
      = [Event ''user:P1'' ''auto_assigned_to_breakout'' ''R1'',
         Event ''user:P2'' ''auto_assigned_to_breakout'' ''R2'',
         Event ''user:P3'' ''auto_assigned_to_breakout'' ''R1'',
         Event ''user:P4'' ''auto_assigned_to_breakout'' ''R2'']"
    by (simp add: exDb_autoAssign)
next
  assume pre: "findOne (\<lambda>s. s_id s = sessionId) (sessions st) = Some (j, sess) \<and>
    s_hostId sess = user \<and>
    brs = findAll (\<lambda>r. r_sessionId r = s_id sess \<and> r_status r = active) (rooms st) \<and>
    brs \<noteq> []"
  let ?un = "unassignedParticipants sess (map snd brs)"
  let ?loop = "assignLoop t ?un 0 brs st"
  from pre have sess: "findOne (\<lambda>s. s_id s = sessionId) (sessions st) = Some (j, sess)"
    and host: "s_hostId sess = user"
    and brs: "brs = findAll (\<lambda>r. r_sessionId r = s_id sess \<and> r_status r = active) (rooms st)"
    and ne: "brs \<noteq> []"
    by blast+
  from brs have link: "linked brs st" by (simp add: findAll_linked)
  have run: "autoAssign t st sessionId user =
      (if ?un = [] then Inr AllAssigned else Inr (AutoAssigned (length ?un) (length brs)), snd ?loop)"
    by (rule autoAssign_runs_loop [OF sess host brs ne])
  show un: "?un = spec_unassigned sess (map snd brs)"
    by (rule unassigned_eq)
  from run un show "fst (autoAssign t st sessionId user)
        = (if spec_unassigned sess (map snd brs) = [] then Inr AllAssigned
           else Inr (AutoAssigned (length (spec_unassigned sess (map snd brs))) (length brs)))"
    by simp
  from assignLoop_extends [OF link ne, of t ?un 0] run
  show "length (rooms (snd (autoAssign t st sessionId user))) = length (rooms st)"
    by (simp add: list_all2_lengthD)
  have docs: "map snd (fst ?loop) = spec_autoAssign t sess (map snd brs)"
    using assignLoop_roundRobin [OF ne, of t ?un 0 st] un
    by (simp add: spec_autoAssign_def)
  have keys: "map fst (fst ?loop) = map fst brs"
    by (rule assignLoop_keys)
  then have len: "length (fst ?loop) = length brs"
    by (metis length_map)
  from assignLoop_linked [OF link ne, of t ?un 0]
  have stored: "\<And>n. n < length (fst ?loop) \<Longrightarrow>
      rooms (snd ?loop) ! fst (fst ?loop ! n) = snd (fst ?loop ! n)"
    by (simp add: linked_nth)
  show "\<forall>n<length brs. rooms (snd (autoAssign t st sessionId user)) ! fst (brs ! n)
                        = spec_autoAssign t sess (map snd brs) ! n"
  proof (intro allI impI)
    fix n assume n: "n < length brs"
    with len have n': "n < length (fst ?loop)" by simp
    from keys n n' have "fst (fst ?loop ! n) = fst (brs ! n)"
      by (metis nth_map)
    moreover from docs n' have "snd (fst ?loop ! n) = spec_autoAssign t sess (map snd brs) ! n"
      by (metis nth_map)
    ultimately show "rooms (snd (autoAssign t st sessionId user)) ! fst (brs ! n)
                        = spec_autoAssign t sess (map snd brs) ! n"
      using stored [OF n'] run by simp
  qed
  show "\<forall>k. k \<notin> fst ` set brs \<longrightarrow>
           rooms (snd (autoAssign t st sessionId user)) ! k = rooms st ! k"
    using assignLoop_others [OF ne, of _ t ?un 0 st] run by simp
qed

theorem autoAssign_round_robin_witness:
  "unassignedParticipants exSession (rooms exDb) = spec_unassigned exSession (rooms exDb) \<and>
   rooms (snd (autoAssign 9 exDb ''S'' ''P1'')) ! 0 = spec_autoAssign 9 exSession (rooms exDb) ! 0 \<and>
   rooms (snd (autoAssign 9 exDb ''S'' ''P1'')) ! 1 = spec_autoAssign 9 exSession (rooms exDb) ! 1 \<and>
   map rp_id (r_participants (spec_autoAssign 9 exSession (rooms exDb) ! 0)) = [''P1'', ''P3''] \<and>
   map rp_id (r_participants (spec_autoAssign 9 exSession (rooms exDb) ! 1)) = [''P2'', ''P4'']"
proof -
  let ?brs = "[(0::nat, mkRoom ''R1'' 2 active), (Suc 0, mkRoom ''R2'' 2 active)]"
  have docs: "map snd ?brs = rooms exDb"
    by (simp add: exDb_simps)
  have host: "s_hostId exSession = ''P1''"
    by (simp add: ex_simps)
  from autoAssign_round_robin [where sessionId = "''S''" and st = exDb and j = 0
      and sess = exSession and user = "''P1''" and brs = ?brs and t = 9]
    exDb_session host exDb_active
  have un: "unassignedParticipants exSession (map snd ?brs) = spec_unassigned exSession (map snd ?brs)"
    and stored: "\<forall>n<length ?brs. rooms (snd (autoAssign 9 exDb ''S'' ''P1'')) ! fst (?brs ! n)
                        = spec_autoAssign 9 exSession (map snd ?brs) ! n"
    by simp_all
  from stored have r0: "rooms (snd (autoAssign 9 exDb ''S'' ''P1'')) ! 0
      = spec_autoAssign 9 exSession (rooms exDb) ! 0"
    unfolding docs by (simp add: All_less_Suc)
  from stored have r1: "rooms (snd (autoAssign 9 exDb ''S'' ''P1'')) ! 1
      = spec_autoAssign 9 exSession (rooms exDb) ! 1"
    unfolding docs by (simp add: All_less_Suc)
  have s0: "map rp_id (r_participants (spec_autoAssign 9 exSession (rooms exDb) ! 0)) = [''P1'', ''P3'']"
    unfolding r0 [symmetric] by (simp add: exDb_autoAssign ex_simps)
  have s1: "map rp_id (r_participants (spec_autoAssign 9 exSession (rooms exDb) ! 1)) = [''P2'', ''P4'']"
    unfolding r1 [symmetric] by (simp add: exDb_autoAssign ex_simps)
  from un have u: "unassignedParticipants exSession (rooms exDb) = spec_unassigned exSession (rooms exDb)"
    unfolding docs .
  show ?thesis
    by (intro conjI u r0 r1 s0 s1)
qed

end
